theory Spec2Isabelle
  imports Complex_Main
begin

text \<open>
  A model of the speech-synchronized presentation engine and of the render-surface bridge
  of the onboarding app: the subtitle chunker and presenter and the playback session of
  \<open>TrainingScreen.tsx\<close> (\<open>WelcomeScreen.tsx\<close> has the same three functions), and the
  greeting and the message handlers of \<open>Avatar3D.tsx\<close>.

  A component's state is a record and a handler is a function from state to state.
  Awaited calls on the world outside (the speech provider, the file system, the audio
  player) are answered by an environment, a rejected promise being an exception at the
  \<open>await\<close>; the calls made are returned as a list of events in the order they are
  made. A presenter that is suspended at a timer is kept in the state as the rest of its
  script. One handler runs at a time, from start to end.
\<close>

section \<open>Strings\<close>

text \<open>
  A JavaScript string is a sequence of UTF-16 code units and \<open>.length\<close> counts them.
  The model writes a string as a \<^typ>\<open>string\<close>, one \<^typ>\<open>char\<close> for each code unit;
  the functions below only compare a unit with the space and count units.
\<close>

text \<open>\<open>text.split(" ")\<close>: the pieces between single spaces, empty pieces kept.
  The result is never empty: \<open>"".split(" ")\<close> is \<open>[""]\<close>.\<close>

fun split_space :: "string \<Rightarrow> string list" where
  "split_space [] = [[]]"
| "split_space (c # cs) =
     (if c = CHR '' '' then [] # split_space cs
      else (case split_space cs of [] \<Rightarrow> [[c]] | w # ws \<Rightarrow> (c # w) # ws))"

text \<open>\<open>words.join(" ")\<close>.\<close>

fun join_space :: "string list \<Rightarrow> string" where
  "join_space [] = []"
| "join_space [w] = w"
| "join_space (w # v # ws) = w @ '' '' @ join_space (v # ws)"

text \<open>\<open>message.includes(marker)\<close>: the marker occurs as a contiguous run.\<close>

fun starts_with :: "string \<Rightarrow> string \<Rightarrow> bool" where
  "starts_with s [] = True"
| "starts_with [] (m # ms) = False"
| "starts_with (c # cs) (m # ms) = (c = m \<and> starts_with cs ms)"

fun js_includes :: "string \<Rightarrow> string \<Rightarrow> bool" where
  "js_includes [] m = (m = [])"
| "js_includes (c # cs) m = (starts_with (c # cs) m \<or> js_includes cs m)"

section \<open>The subtitle chunker (TrainingScreen.tsx, WelcomeScreen.tsx)\<close>

text \<open>
  \<^verbatim>\<open>
  const splitIntoChunks = (text: string): string[] => {
    const words = text.split(" ");
    const chunks: string[] = [];
    let currentChunk = "";
    words.forEach((word) => {
      const testChunk = currentChunk ? `${currentChunk} ${word}` : word;
      if (testChunk.length > 50 && currentChunk) {
        chunks.push(currentChunk);
        currentChunk = word;
      } else {
        currentChunk = testChunk;
      }
    });
    if (currentChunk) { chunks.push(currentChunk); }
    return chunks;
  };
  \<close>
  The loop's state is the pair \<open>(chunks, currentChunk)\<close>; a string is truthy when it is
  not empty.
\<close>

definition chunk_step :: "string list \<times> string \<Rightarrow> string \<Rightarrow> string list \<times> string" where
  "chunk_step st word =
     (let chunks = fst st; currentChunk = snd st;
          testChunk = (if currentChunk \<noteq> [] then currentChunk @ '' '' @ word else word)
      in if length testChunk > 50 \<and> currentChunk \<noteq> []
         then (chunks @ [currentChunk], word)
         else (chunks, testChunk))"

definition chunk_finish :: "string list \<times> string \<Rightarrow> string list" where
  "chunk_finish st = (if snd st \<noteq> [] then fst st @ [snd st] else fst st)"

definition splitIntoChunks :: "string \<Rightarrow> string list" where
  "splitIntoChunks text = chunk_finish (foldl chunk_step ([], []) (split_space text))"

section \<open>The subtitle presenter (TrainingScreen.tsx, WelcomeScreen.tsx)\<close>

text \<open>
  Numbers are JavaScript doubles; the model computes with exact rationals. Every value of
  the 3000ms scenario below is an integer, where the two agree.
  What the presenter does to the screen is a script of display operations: a state update,
  or \<open>await new Promise((resolve) => setTimeout(resolve, d))\<close>, written \<open>Sleep d\<close>.
\<close>

datatype display_op =
    SetOpacity rat
  | SetTranslateY rat
  | SetCurrentSubtitle string
  | Sleep rat

text \<open>\<open>chunk.split(" ").length\<close>\<close>

definition wordCount :: "string \<Rightarrow> nat" where
  "wordCount chunk = length (split_space chunk)"

text \<open>\<open>chunks.reduce((sum, chunk) => sum + chunk.split(" ").length, 0)\<close>\<close>

definition totalWords :: "string list \<Rightarrow> nat" where
  "totalWords chunks = foldl (\<lambda>sum chunk. sum + wordCount chunk) 0 chunks"

text \<open>
  \<^verbatim>\<open>
  for (let i = 0; i < chunks.length; i++) {
    const wordCount = chunks[i].split(" ").length;
    const duration = wordCount * msPerWord;
    setCurrentSubtitle(chunks[i]);
    await new Promise((resolve) => setTimeout(resolve, duration));
    if (i < chunks.length - 1) {
      setCurrentSubtitle("");
      await new Promise((resolve) => setTimeout(resolve, 100));
    }
  }
  \<close>
\<close>

function subtitle_loop :: "string list \<Rightarrow> rat \<Rightarrow> nat \<Rightarrow> display_op list" where
  "subtitle_loop chunks msPerWord i =
     (if i < length chunks then
        (let duration = of_nat (wordCount (chunks ! i)) * msPerWord
         in [SetCurrentSubtitle (chunks ! i), Sleep duration]
            @ (if int i < int (length chunks) - 1 then [SetCurrentSubtitle [], Sleep 100] else [])
            @ subtitle_loop chunks msPerWord (i + 1))
      else [])"
  by pat_completeness auto
termination
  by (relation "measure (\<lambda>(chunks, msPerWord, i). length chunks - i)") auto

text \<open>
  \<open>showSubtitlesWithAudio(chunks, audioDurationMs)\<close>. With no chunks the division is by
  zero (\<open>Infinity\<close> or \<open>NaN\<close> in JavaScript, \<open>0\<close> here) and its value is never used.
\<close>

definition showSubtitlesWithAudio :: "string list \<Rightarrow> rat \<Rightarrow> display_op list" where
  "showSubtitlesWithAudio chunks audioDurationMs =
     (let msPerWord = audioDurationMs / of_nat (totalWords chunks)
      in [SetOpacity 1, SetTranslateY 0] @ subtitle_loop chunks msPerWord 0)"

declare subtitle_loop.simps [simp del]

text \<open>
  The timers during which a chunk is on display: each \<open>Sleep\<close> that directly follows
  a \<open>setCurrentSubtitle\<close> with a text that is not empty.
\<close>

fun display_durations :: "display_op list \<Rightarrow> rat list" where
  "display_durations (SetCurrentSubtitle t # Sleep d # ops) =
     (if t \<noteq> [] then [d] else []) @ display_durations ops"
| "display_durations (x # ops) = display_durations ops"
| "display_durations [] = []"

section \<open>Speech synthesis requests and the audio player\<close>

datatype 'a outcome = Rejected | Fulfilled 'a

type_synonym sound = nat

record voice_settings =
  stability :: rat
  similarity_boost :: rat
  style :: rat
  use_speaker_boost :: bool

record request_body =
  body_text :: string
  model_id :: string
  body_voice_settings :: voice_settings

record request =
  req_method :: string
  req_url :: string
  req_headers :: "(string \<times> string) list"
  req_body :: request_body

record response =
  resp_ok :: bool
  resp_status :: nat
  resp_arrayBuffer :: "nat list outcome"

record playback_status =
  isLoaded :: bool
  durationMillis :: "rat option"
  didJustFinish :: bool

datatype json =
    JNull
  | JBool bool
  | JNumber rat
  | JString string
  | JArray "json list"
  | JObject "(string \<times> json) list"

text \<open>The calls a component makes on the world outside it, in the order it makes them.\<close>

datatype event =
    SetAudioMode
  | Fetch request
  | WriteFile string
  | Unload sound "unit outcome"
  | Create string sound
  | GetStatus sound
  | SetListener sound
  | PostMessage json
  | GreetingComplete

text \<open>
  What the world answers during one run: the key in \<open>process.env\<close>, the cache directory,
  and the result of each awaited call (a rejected promise is an exception at the
  \<open>await\<close>).
\<close>

record env =
  apiKey :: string
  cacheDirectory :: string
  audioModeResult :: "unit outcome"
  fetchResult :: "response outcome"
  writeResult :: "unit outcome"
  unloadResult :: "unit outcome"
  createResult :: "sound outcome"
  statusResult :: "playback_status outcome"

definition narratorVoiceId :: string where
  "narratorVoiceId = ''9BWtsMINqrJLrRacOk9x''"

definition maleVoiceId :: string where
  "maleVoiceId = ''iP95p4xoKVk53GoZ742B''"

definition femaleVoiceId :: string where
  "femaleVoiceId = ''21m00Tcm4TlvDq8ikWAM''"

text \<open>The argument of \<open>fetch\<close>; the body is the object given to \<open>JSON.stringify\<close>.\<close>

definition ttsRequest :: "string \<Rightarrow> string \<Rightarrow> string \<Rightarrow> request" where
  "ttsRequest key voiceId txt =
     \<lparr> req_method = ''POST'',
       req_url = ''https://api.elevenlabs.io/v1/text-to-speech/'' @ voiceId
                 @ ''?output_format=mp3_44100_128'',
       req_headers = [(''xi-api-key'', key), (''Content-Type'', ''application/json'')],
       req_body = \<lparr> body_text = txt, model_id = ''eleven_flash_v2_5'',
                     body_voice_settings =
                       \<lparr> stability = 7 / 10, similarity_boost = 1 / 2, style = 0,
                         use_speaker_boost = False \<rparr> \<rparr> \<rparr>"

text \<open>
  The first half of both \<open>try\<close> blocks: fetch, \<open>if (!response.ok) throw\<close>,
  \<open>response.arrayBuffer()\<close>, and the write of the base64 text to the cache file.
  \<open>Rejected\<close> is the exception that leaves the \<open>try\<close> block.
\<close>

definition synthesize :: "string \<Rightarrow> string \<Rightarrow> string \<Rightarrow> env \<Rightarrow> event list \<times> string outcome" where
  "synthesize voiceId fileName txt e =
     (let req = Fetch (ttsRequest (apiKey e) voiceId txt)
      in case fetchResult e of
           Rejected \<Rightarrow> ([req], Rejected)
         | Fulfilled response \<Rightarrow>
             if \<not> resp_ok response then ([req], Rejected)
             else (case resp_arrayBuffer response of
                     Rejected \<Rightarrow> ([req], Rejected)
                   | Fulfilled audioBuffer \<Rightarrow>
                       (let fileUri = cacheDirectory e @ fileName
                        in case writeResult e of
                             Rejected \<Rightarrow> ([req, WriteFile fileUri], Rejected)
                           | Fulfilled u \<Rightarrow> ([req, WriteFile fileUri], Fulfilled fileUri))))"

text \<open>The sounds that are loaded after a run of calls.\<close>

fun live_after :: "sound set \<Rightarrow> event list \<Rightarrow> sound set" where
  "live_after live [] = live"
| "live_after live (Unload a (Fulfilled u) # evs) = live_after (live - {a}) evs"
| "live_after live (Create f b # evs) = live_after (insert b live) evs"
| "live_after live (ev # evs) = live_after live evs"

section \<open>TrainingScreen: component state, playback and the session\<close>

datatype stage = Speaking | Continue

text \<open>
  The component's state and refs, and what the runtime holds for it: the sound whose
  playback-status callback is registered, the presenter scripts that are suspended at a
  timer (each begins with its \<open>Sleep\<close>), the local \<open>subtitlesStarted\<close> of the running
  session, and how often that session's \<open>resolve\<close> has been called.
\<close>

record screen =
  stage :: stage
  currentSubtitle :: string
  subtitleOpacity :: rat
  subtitleTranslateY :: rat
  soundRef :: "sound option"
  listener :: "sound option"
  timers :: "display_op list list"
  subtitlesStarted :: bool
  resolveCalls :: nat

text \<open>The state of a freshly mounted screen (\<open>useState\<close>, \<open>useRef\<close> initial values).\<close>

definition initialScreen :: screen where
  "initialScreen =
     \<lparr> stage = Speaking, currentSubtitle = [], subtitleOpacity = 0, subtitleTranslateY = 50,
       soundRef = None, listener = None, timers = [], subtitlesStarted = False,
       resolveCalls = 0 \<rparr>"

text \<open>An async function runs up to its first \<open>await\<close> of a timer; the rest waits.\<close>

fun run_display :: "display_op list \<Rightarrow> screen \<Rightarrow> screen \<times> display_op list" where
  "run_display [] s = (s, [])"
| "run_display (SetOpacity v # ops) s = run_display ops (s\<lparr>subtitleOpacity := v\<rparr>)"
| "run_display (SetTranslateY v # ops) s = run_display ops (s\<lparr>subtitleTranslateY := v\<rparr>)"
| "run_display (SetCurrentSubtitle t # ops) s = run_display ops (s\<lparr>currentSubtitle := t\<rparr>)"
| "run_display (Sleep d # ops) s = (s, Sleep d # ops)"

definition suspend :: "screen \<times> display_op list \<Rightarrow> screen" where
  "suspend r = (if snd r = [] then fst r else (fst r)\<lparr>timers := timers (fst r) @ [snd r]\<rparr>)"

text \<open>The call \<open>showSubtitlesWithAudio(chunks, duration)\<close>, not awaited by its caller.\<close>

definition startSubtitles :: "string list \<Rightarrow> rat \<Rightarrow> screen \<Rightarrow> screen" where
  "startSubtitles chunks duration s = suspend (run_display (showSubtitlesWithAudio chunks duration) s)"


text \<open>
  A number is truthy unless it is \<open>0\<close> or \<open>NaN\<close>; \<open>undefined\<close> (\<open>None\<close>) is falsy.
\<close>

definition truthy :: "rat option \<Rightarrow> bool" where
  "truthy d = (case d of None \<Rightarrow> False | Some v \<Rightarrow> v \<noteq> 0)"

text \<open>
  The second half of the \<open>try\<close> block of \<open>playElevenLabsAudio\<close>:
  \<^verbatim>\<open>
  if (soundRef.current) { await soundRef.current.unloadAsync(); }
  const { sound } = await Audio.Sound.createAsync({ uri: fileUri }, { shouldPlay: true });
  soundRef.current = sound;
  const status = await sound.getStatusAsync();
  if (status.isLoaded && status.durationMillis && onDurationReady) {
    onDurationReady(status.durationMillis);
  }
  sound.setOnPlaybackStatusUpdate(...);
  \<close>
  The third component of the result says whether an exception left the block.
\<close>

definition loadAndPlay ::
  "string \<Rightarrow> (rat \<Rightarrow> screen \<Rightarrow> screen) option \<Rightarrow> env \<Rightarrow> screen \<Rightarrow> event list \<times> screen \<times> bool" where
  "loadAndPlay fileUri onDurationReady e s =
     (let unl = (case soundRef s of
                   None \<Rightarrow> ([], Fulfilled ())
                 | Some prev \<Rightarrow> ([Unload prev (unloadResult e)], unloadResult e))
      in case snd unl of
           Rejected \<Rightarrow> (fst unl, s, True)
         | Fulfilled u \<Rightarrow>
             (case createResult e of
                Rejected \<Rightarrow> (fst unl, s, True)
              | Fulfilled sound \<Rightarrow>
                  (let s1 = s\<lparr>soundRef := Some sound\<rparr>;
                       evs = fst unl @ [Create fileUri sound, GetStatus sound]
                   in case statusResult e of
                        Rejected \<Rightarrow> (evs, s1, True)
                      | Fulfilled status \<Rightarrow>
                          (let s2 = (case onDurationReady of
                                       None \<Rightarrow> s1
                                     | Some cb \<Rightarrow>
                                         if isLoaded status \<and> truthy (durationMillis status)
                                         then cb (the (durationMillis status)) s1
                                         else s1)
                           in (evs @ [SetListener sound], s2\<lparr>listener := Some sound\<rparr>, False)))))"

text \<open>
  \<open>playElevenLabsAudio(text, onFinish, onDurationReady)\<close>: the \<open>try\<close> block, and the
  \<open>catch\<close> that calls \<open>onFinish()\<close>.
\<close>

definition playElevenLabsAudio ::
  "string \<Rightarrow> (screen \<Rightarrow> screen) \<Rightarrow> (rat \<Rightarrow> screen \<Rightarrow> screen) option \<Rightarrow> env \<Rightarrow> screen
     \<Rightarrow> event list \<times> screen" where
  "playElevenLabsAudio txt onFinish onDurationReady e s =
     (case synthesize narratorVoiceId ''temp_audio.mp3'' txt e of
        (evs, Rejected) \<Rightarrow> (evs, onFinish s)
      | (evs, Fulfilled fileUri) \<Rightarrow>
          (case loadAndPlay fileUri onDurationReady e s of
             (evs2, s', threw) \<Rightarrow> (evs @ evs2, if threw then onFinish s' else s')))"

text \<open>
  The callback given to \<open>setOnPlaybackStatusUpdate\<close>, and the player calling it for the
  sound it is registered on.
\<close>

definition onPlaybackStatusUpdate :: "(screen \<Rightarrow> screen) \<Rightarrow> playback_status \<Rightarrow> screen \<Rightarrow> screen" where
  "onPlaybackStatusUpdate onFinish status s =
     (if isLoaded status \<and> didJustFinish status then onFinish s else s)"

definition deliverStatus ::
  "(screen \<Rightarrow> screen) \<Rightarrow> sound \<Rightarrow> playback_status \<Rightarrow> screen \<Rightarrow> screen" where
  "deliverStatus onFinish sound status s =
     (if listener s = Some sound then onPlaybackStatusUpdate onFinish status s else s)"

text \<open>
  The narration of the training screen. The dash between \<open>agent\<close> and \<open>teach\<close> is
  U+2014, one code unit, written here as the single character \<open>0x97\<close>.
\<close>

definition trainingText :: string where
  "trainingText =
     ''Your agent looks impressive, but it still needs a brain. What sets our agents apart is that each one is built by you in real time. From the moment it's created, it learns only from the information you provide, allowing it to become a perfectly tailored salesperson designed exclusively for your business. Now it's time to train your agent''
     @ [CHR 0x97]
     @ ''teach it everything about your company and include as much detail as possible so it can truly represent your brand.''"

text \<open>
  \<open>speakTrainingMessage\<close> up to \<open>await audioPromise\<close>. \<open>resolve\<close> is the promise's
  resolver, given as \<open>onFinish\<close>; the promise is settled once \<open>resolveCalls\<close> is positive.
\<close>

definition resolve :: "screen \<Rightarrow> screen" where
  "resolve s = s\<lparr>resolveCalls := resolveCalls s + 1\<rparr>"

definition onDuration :: "string list \<Rightarrow> rat \<Rightarrow> screen \<Rightarrow> screen" where
  "onDuration chunks duration s =
     (if \<not> subtitlesStarted s
      then startSubtitles chunks duration (s\<lparr>subtitlesStarted := True\<rparr>)
      else s)"

definition speakTrainingMessage :: "env \<Rightarrow> screen \<Rightarrow> event list \<times> screen" where
  "speakTrainingMessage e s =
     (let s1 = s\<lparr>stage := Speaking\<rparr>;
          chunks = splitIntoChunks trainingText;
          s2 = s1\<lparr>subtitlesStarted := False, resolveCalls := 0\<rparr>
      in playElevenLabsAudio trainingText resolve (Some (onDuration chunks)) e s2)"

text \<open>
  The rest of \<open>speakTrainingMessage\<close>, which runs once the promise is settled:
  \<open>fadeOutSubtitle()\<close> animates to opacity 0 and offset -50, and 400ms later the stage
  becomes \<open>"continue"\<close>.
\<close>

definition afterAudio :: "screen \<Rightarrow> screen" where
  "afterAudio s =
     (if 0 < resolveCalls s
      then s\<lparr>subtitleOpacity := 0, subtitleTranslateY := - 50, stage := Continue\<rparr>
      else s)"


section \<open>Avatar3D: the greeting and the bridge to the rendering surface\<close>

datatype gender = Male | Female

text \<open>
  The component's state (\<open>useState\<close>). \<open>onGreetingComplete\<close> is a prop, a callback of
  the parent: calling it is the event \<open>GreetingComplete\<close>.
\<close>

record avatar =
  loading :: bool
  error :: "string option"
  hasPlayedGreeting :: bool
  avatarGender :: gender
  greetingListener :: "sound option"

definition initialAvatar :: avatar where
  "initialAvatar =
     \<lparr> loading = True, error = None, hasPlayedGreeting = False, avatarGender = Male,
       greetingListener = None \<rparr>"

text \<open>\<open>if (onGreetingComplete) { onGreetingComplete(); }\<close>\<close>

definition greetingComplete :: "bool \<Rightarrow> event list" where
  "greetingComplete hasCallback = (if hasCallback then [GreetingComplete] else [])"

text \<open>
  \<open>playGreeting\<close>: the \<open>try\<close> block (audio mode, synthesis with the voice of the avatar's
  gender, \<open>createAsync\<close>, the status callback) and the \<open>catch\<close> that calls
  \<open>onGreetingComplete\<close> when it is given.
\<close>

definition playGreeting :: "string \<Rightarrow> bool \<Rightarrow> env \<Rightarrow> avatar \<Rightarrow> event list \<times> avatar" where
  "playGreeting userName hasCallback e a =
     (case audioModeResult e of
        Rejected \<Rightarrow> ([SetAudioMode] @ greetingComplete hasCallback, a)
      | Fulfilled u \<Rightarrow>
          (let greetingText = ''Hello '' @ userName @ ''! Looking forward to working together!'';
               voiceId = (if avatarGender a = Male then maleVoiceId else femaleVoiceId)
           in case synthesize voiceId ''avatar_greeting.mp3'' greetingText e of
                (evs, Rejected) \<Rightarrow> ([SetAudioMode] @ evs @ greetingComplete hasCallback, a)
              | (evs, Fulfilled fileUri) \<Rightarrow>
                  (case createResult e of
                     Rejected \<Rightarrow> ([SetAudioMode] @ evs @ greetingComplete hasCallback, a)
                   | Fulfilled sound \<Rightarrow>
                       ([SetAudioMode] @ evs @ [Create fileUri sound, SetListener sound],
                        a\<lparr>greetingListener := Some sound\<rparr>))))"

text \<open>
  The status callback of the greeting:
  \<open>if (status.isLoaded && status.didJustFinish) { sound.unloadAsync(); onGreetingComplete?.() }\<close>
\<close>

definition greetingStatusUpdate ::
  "bool \<Rightarrow> sound \<Rightarrow> playback_status \<Rightarrow> env \<Rightarrow> avatar \<Rightarrow> event list \<times> avatar" where
  "greetingStatusUpdate hasCallback sound status e a =
     (if greetingListener a = Some sound \<and> isLoaded status \<and> didJustFinish status
      then ([Unload sound (unloadResult e)] @ greetingComplete hasCallback, a)
      else ([], a))"

text \<open>The command of the bridge, the object given to \<open>JSON.stringify\<close>.\<close>

definition switchToTalking :: json where
  "switchToTalking = JObject [(''action'', JString ''switchToTalking'')]"

text \<open>
  The effect on \<open>[accepted, webViewRef.current]\<close>:
  \<^verbatim>\<open>
  if (accepted && webViewRef.current && !hasPlayedGreeting) {
    setHasPlayedGreeting(true);
    webViewRef.current.postMessage(JSON.stringify({ action: "switchToTalking" }));
    playGreeting();
  }
  \<close>
  A run of the effect reads the state of the render it belongs to; the update it makes is
  committed before the effect can run again.
\<close>

definition acceptedEffect ::
  "bool \<Rightarrow> bool \<Rightarrow> string \<Rightarrow> bool \<Rightarrow> env \<Rightarrow> avatar \<Rightarrow> event list \<times> avatar" where
  "acceptedEffect accepted webViewPresent userName hasCallback e a =
     (if accepted \<and> webViewPresent \<and> \<not> hasPlayedGreeting a
      then (let a1 = a\<lparr>hasPlayedGreeting := True\<rparr>;
                r = playGreeting userName hasCallback e a1
            in ([PostMessage switchToTalking] @ fst r, snd r))
      else ([], a))"

text \<open>
  \<open>onMessage\<close> of the WebView, on the host side:
  \<^verbatim>\<open>
  const message = event.nativeEvent.data;
  if (message.includes("Failed") || message.includes("Fatal")) { setError(message); }
  if (message.includes("Avatar loaded") || message.includes("Scene ready")) { setError(null); }
  \<close>
  \<open>setErrorCalls\<close> are the calls of \<open>setError\<close> in order; the state after the handler
  is the one the last call leaves.
\<close>

definition setErrorCalls :: "string \<Rightarrow> string option list" where
  "setErrorCalls message =
     (if js_includes message ''Failed'' \<or> js_includes message ''Fatal'' then [Some message] else [])
     @ (if js_includes message ''Avatar loaded'' \<or> js_includes message ''Scene ready''
        then [None] else [])"

definition onMessage :: "string \<Rightarrow> avatar \<Rightarrow> avatar" where
  "onMessage message a = foldl (\<lambda>st v. st\<lparr>error := v\<rparr>) a (setErrorCalls message)"

text \<open>\<open>onLoad\<close>, \<open>onError\<close> of the WebView and the result of the gender detection.\<close>

datatype avatar_input =
    EffectRun bool bool string bool env
  | WebViewMessage string
  | WebViewLoad
  | WebViewError
  | GenderDetected gender
  | GreetingStatus bool sound playback_status env

fun avatar_step :: "avatar_input \<Rightarrow> avatar \<Rightarrow> event list \<times> avatar" where
  "avatar_step (EffectRun accepted webViewPresent userName hasCallback e) a =
     acceptedEffect accepted webViewPresent userName hasCallback e a"
| "avatar_step (WebViewMessage message) a = ([], onMessage message a)"
| "avatar_step WebViewLoad a = ([], a\<lparr>loading := False\<rparr>)"
| "avatar_step WebViewError a = ([], a\<lparr>error := Some ''Failed to load 3D viewer'', loading := False\<rparr>)"
| "avatar_step (GenderDetected g) a = ([], a\<lparr>avatarGender := g\<rparr>)"
| "avatar_step (GreetingStatus hasCallback sound status e) a =
     greetingStatusUpdate hasCallback sound status e a"

fun avatar_run :: "avatar_input list \<Rightarrow> avatar \<Rightarrow> event list \<times> avatar" where
  "avatar_run [] a = ([], a)"
| "avatar_run (i # is) a =
     (let r = avatar_step i a; r2 = avatar_run is (snd r) in (fst r @ fst r2, snd r2))"

subsection \<open>The listener inside the rendering surface\<close>

datatype js_error = SyntaxError | TypeError

text \<open>
  What the listener changes in the scene: the camera, the target of the controls, and the
  animation files it has asked the loader for.
\<close>

record surface =
  cameraPosition :: "rat \<times> rat \<times> rat"
  controlsTarget :: "rat \<times> rat \<times> rat"
  animationLoads :: "string list"

definition talkingAnimationUrl :: string where
  "talkingAnimationUrl =
     ''https://cdn.jsdelivr.net/gh/readyplayerme/animation-library@master/masculine/glb/expression/M_Talking_Variations_001.glb''"

text \<open>
  \<open>message.action\<close>: reading a property of \<open>null\<close> throws a \<open>TypeError\<close>; an object
  gives the member or \<open>undefined\<close>; any other JSON value has no such property.
\<close>

fun get_action :: "json \<Rightarrow> js_error + json option" where
  "get_action JNull = Inl TypeError"
| "get_action (JObject members) = Inr (map_of members ''action'')"
| "get_action v = Inr None"

text \<open>
  \<^verbatim>\<open>
  window.addEventListener('message', function(event) {
    try {
      const message = JSON.parse(event.data);
      if (message.action === 'switchToTalking') {
        camera.position.set(0, 1.2, 2);
        controls.target.set(0, 0.8, 0);
        controls.update();
        loader.load('${talkingAnimationUrl}', ...);
      }
    } catch (e) { console.error('Message parsing error:', e); }
  });
  \<close>
  \<open>JSON.parse\<close> is the runtime's and is a parameter: \<open>None\<close> when it throws a
  \<open>SyntaxError\<close>. \<open>listenerTry\<close> is the \<open>try\<close> block, \<open>Inl\<close> the exception that
  leaves it; \<open>windowMessageListener\<close> is the whole handler, \<open>Inl\<close> an exception that
  would leave the handler.
\<close>

definition listenerTry :: "(string \<Rightarrow> json option) \<Rightarrow> string \<Rightarrow> surface \<Rightarrow> js_error + surface" where
  "listenerTry parse data sf =
     (case parse data of
        None \<Rightarrow> Inl SyntaxError
      | Some message \<Rightarrow>
          (case get_action message of
             Inl err \<Rightarrow> Inl err
           | Inr action \<Rightarrow>
               if action = Some (JString ''switchToTalking'')
               then Inr (sf\<lparr>cameraPosition := (0, 6 / 5, 2), controlsTarget := (0, 4 / 5, 0),
                           animationLoads := animationLoads sf @ [talkingAnimationUrl]\<rparr>)
               else Inr sf))"

definition windowMessageListener ::
  "(string \<Rightarrow> json option) \<Rightarrow> string \<Rightarrow> surface \<Rightarrow> js_error + surface" where
  "windowMessageListener parse data sf =
     (case listenerTry parse data sf of
        Inl err \<Rightarrow> Inr sf
      | Inr sf' \<Rightarrow> Inr sf')"

text \<open>
  By the JSON grammar a text starts, after white space, with the first character of a
  value: a brace, a bracket, a quote, a minus sign, a digit, or the \<open>t\<close>, \<open>f\<close>, \<open>n\<close> of
  a literal. A string that starts otherwise is not JSON.
\<close>

definition json_first_chars :: string where
  "json_first_chars = [CHR ''{'', CHR ''['', CHR 0x22, CHR ''-'', CHR ''t'', CHR ''f'', CHR ''n''] @ ''0123456789''"

fun may_start_json :: "string \<Rightarrow> bool" where
  "may_start_json [] = False"
| "may_start_json (c # cs) =
     (if c \<in> set [CHR '' '', CHR 0x09, CHR 0x0A, CHR 0x0D] then may_start_json cs
      else c \<in> set json_first_chars)"

section \<open>Observations and sample runs\<close>

text \<open>
  The synthesis step fails: an exception leaves the first half of the \<open>try\<close> block,
  because \<open>fetch\<close> rejects, the response is not ok (any status outside 200-299),
  \<open>arrayBuffer()\<close> rejects, or the audio cannot be written to the cache.
\<close>

definition synthesisFails :: "env \<Rightarrow> bool" where
  "synthesisFails e =
     (case fetchResult e of
        Rejected \<Rightarrow> True
      | Fulfilled r \<Rightarrow> \<not> resp_ok r \<or> resp_arrayBuffer r = Rejected \<or> writeResult e = Rejected)"

fun isFetch :: "event \<Rightarrow> bool" where
  "isFetch (Fetch r) = True"
| "isFetch ev = False"

text \<open>At most one sound is loaded; and that at every point of a run of calls.\<close>

definition at_most_one :: "sound set \<Rightarrow> bool" where
  "at_most_one live = (\<exists>x. live \<subseteq> {x})"

fun one_at_a_time :: "sound set \<Rightarrow> event list \<Rightarrow> bool" where
  "one_at_a_time live [] = at_most_one live"
| "one_at_a_time live (ev # evs) = (at_most_one live \<and> one_at_a_time (live_after live [ev]) evs)"

text \<open>The speech provider answers with HTTP 500.\<close>

definition http500 :: env where
  "http500 =
     \<lparr> apiKey = ''key'', cacheDirectory = ''file:///cache/'', audioModeResult = Fulfilled (),
       fetchResult = Fulfilled \<lparr> resp_ok = False, resp_status = 500, resp_arrayBuffer = Fulfilled [] \<rparr>,
       writeResult = Fulfilled (), unloadResult = Fulfilled (), createResult = Fulfilled 1,
       statusResult = Fulfilled \<lparr> isLoaded = True, durationMillis = Some 3000, didJustFinish = False \<rparr> \<rparr>"

text \<open>Every call succeeds; the sound loaded is number \<open>n\<close> and reports the status \<open>st\<close>.\<close>

definition playing :: "sound \<Rightarrow> playback_status \<Rightarrow> env" where
  "playing n st =
     \<lparr> apiKey = ''key'', cacheDirectory = ''file:///cache/'', audioModeResult = Fulfilled (),
       fetchResult = Fulfilled \<lparr> resp_ok = True, resp_status = 200, resp_arrayBuffer = Fulfilled [73, 68, 51] \<rparr>,
       writeResult = Fulfilled (), unloadResult = Fulfilled (), createResult = Fulfilled n,
       statusResult = Fulfilled st \<rparr>"

text \<open>Statuses of a loaded sound that reports the duration \<open>d\<close>: playing, and just finished.\<close>

definition loaded :: "rat option \<Rightarrow> playback_status" where
  "loaded d = \<lparr> isLoaded = True, durationMillis = d, didJustFinish = False \<rparr>"

definition finished :: "rat option \<Rightarrow> playback_status" where
  "finished d = \<lparr> isLoaded = True, durationMillis = d, didJustFinish = True \<rparr>"


fun isPostMessage :: "event \<Rightarrow> bool" where
  "isPostMessage (PostMessage v) = True"
| "isPostMessage ev = False"

text \<open>
  What \<open>JSON.parse\<close> gives on four texts: the command of the bridge, a command with
  another action, \<open>null\<close>, and a text that is not JSON. It stands for the runtime's
  parser in the examples.
\<close>

definition sampleParse :: "string \<Rightarrow> json option" where
  \<open>sampleParse data =
     (if data = ''{"action":"switchToTalking"}'' then Some switchToTalking
      else if data = ''{"action":"dance"}'' then Some (JObject [(''action'', JString ''dance'')])
      else if data = ''null'' then Some JNull
      else None)\<close>

text \<open>The scene as the page sets it up, before any command.\<close>

definition initialSurface :: surface where
  "initialSurface =
     \<lparr> cameraPosition = (0, 4 / 5, 7 / 2), controlsTarget = (0, 3 / 10, 0), animationLoads = [] \<rparr>"

section \<open>Properties of the chunker\<close>

lemma split_space_ne: "split_space t \<noteq> []"
  by (induction t) (simp_all split: list.split)

lemma join_space_Cons: "ys \<noteq> [] \<Longrightarrow> join_space (w # ys) = w @ '' '' @ join_space ys"
  by (cases ys) simp_all

lemma join_space_Cons_char: "join_space ((c # w) # ws) = c # join_space (w # ws)"
  by (cases ws) simp_all

lemma join_split: "join_space (split_space t) = t"
proof (induction t)
  case Nil show ?case by simp
next
  case (Cons c cs)
  obtain w ws where e: "split_space cs = w # ws"
    using split_space_ne[of cs] by (cases "split_space cs") simp_all
  show ?case
  proof (cases "c = CHR '' ''")
    case True
    then show ?thesis using Cons e by simp
  next
    case False
    then have "split_space (c # cs) = (c # w) # ws" using e by simp
    then show ?thesis using Cons e by (simp add: join_space_Cons_char del: join_space.simps)
  qed
qed

lemma join_space_append:
  "join_space (xs @ ys) =
     (if xs = [] then join_space ys else if ys = [] then join_space xs
      else join_space xs @ '' '' @ join_space ys)"
proof (induction xs)
  case Nil show ?case by simp
next
  case (Cons x xs)
  show ?case
  proof (cases "xs = []")
    case True then show ?thesis by (simp add: join_space_Cons)
  next
    case False
    then have "xs @ ys \<noteq> []" by simp
    then show ?thesis using Cons False by (simp add: join_space_Cons del: join_space.simps)
  qed
qed


lemma split_space_no_space: "w \<in> set (split_space t) \<Longrightarrow> CHR '' '' \<notin> set w"
proof (induction t arbitrary: w)
  case Nil then show ?case by simp
next
  case (Cons c cs)
  obtain v vs where e: "split_space cs = v # vs"
    using split_space_ne[of cs] by (cases "split_space cs") simp_all
  show ?case
  proof (cases "c = CHR '' ''")
    case True
    then have "w = [] \<or> w \<in> set (split_space cs)" using Cons.prems by simp
    then show ?thesis using Cons.IH by auto
  next
    case False
    then have "w = c # v \<or> w \<in> set vs" using Cons.prems e by simp
    moreover have "CHR '' '' \<notin> set v" using Cons.IH[of v] e by simp
    moreover have "w \<in> set vs \<Longrightarrow> CHR '' '' \<notin> set w" using Cons.IH[of w] e by simp
    ultimately show ?thesis using False by auto
  qed
qed

lemma chunk_step_simps:
  "chunk_step (chunks, []) word = (chunks, word)"
  "cur \<noteq> [] \<Longrightarrow> 50 < length (cur @ '' '' @ word) \<Longrightarrow>
   chunk_step (chunks, cur) word = (chunks @ [cur], word)"
  "cur \<noteq> [] \<Longrightarrow> \<not> 50 < length (cur @ '' '' @ word) \<Longrightarrow>
   chunk_step (chunks, cur) word = (chunks, cur @ '' '' @ word)"
  unfolding chunk_step_def by simp_all

lemma chunk_finish_simps:
  "chunk_finish (chunks, []) = chunks"
  "cur \<noteq> [] \<Longrightarrow> chunk_finish (chunks, cur) = chunks @ [cur]"
  unfolding chunk_finish_def by simp_all

lemma chunk_step_cases:
  obtains (fresh) chunks where "st = (chunks, [])" "chunk_step st word = (chunks, word)"
  | (close) chunks cur where "st = (chunks, cur)" "cur \<noteq> []"
      "50 < length (cur @ '' '' @ word)" "chunk_step st word = (chunks @ [cur], word)"
  | (extend) chunks cur where "st = (chunks, cur)" "cur \<noteq> []"
      "\<not> 50 < length (cur @ '' '' @ word)" "chunk_step st word = (chunks, cur @ '' '' @ word)"
proof (cases st)
  case (Pair chunks cur)
  show ?thesis
  proof (cases "cur = []")
    case True
    with Pair show ?thesis using fresh chunk_step_simps(1) by blast
  next
    case False
    show ?thesis
    proof (cases "50 < length (cur @ '' '' @ word)")
      case True
      with Pair False show ?thesis using close chunk_step_simps(2) by blast
    next
      case no: False
      with Pair False show ?thesis using extend chunk_step_simps(3) by blast
    qed
  qed
qed

lemma chunk_finish_step_ne: "word \<noteq> [] \<Longrightarrow> chunk_finish (chunk_step st word) \<noteq> []"
  by (cases rule: chunk_step_cases[of st word]) (simp_all add: chunk_finish_simps)

lemma join_chunk_step:
  assumes "word \<noteq> []"
  shows "join_space (chunk_finish (chunk_step st word)) = join_space (chunk_finish st @ [word])"
proof (cases rule: chunk_step_cases[of st word])
  case (fresh chunks)
  with assms show ?thesis by (simp add: chunk_finish_simps)
next
  case (close chunks cur)
  with assms show ?thesis by (simp add: chunk_finish_simps)
next
  case (extend chunks cur)
  have "join_space (chunks @ [cur @ '' '' @ word]) = join_space ((chunks @ [cur]) @ [word])"
    using extend(2) by (simp add: join_space_append del: append_assoc)
  with extend assms show ?thesis by (simp add: chunk_finish_simps)
qed

lemma join_space_append_cong:
  "join_space xs = join_space ys \<Longrightarrow> xs \<noteq> [] \<Longrightarrow> ys \<noteq> [] \<Longrightarrow>
   join_space (xs @ zs) = join_space (ys @ zs)"
  by (simp add: join_space_append)

lemma join_chunk_foldl:
  "[] \<notin> set ws \<Longrightarrow>
   join_space (chunk_finish (foldl chunk_step st ws)) = join_space (chunk_finish st @ ws)"
proof (induction ws arbitrary: st)
  case Nil
  then show ?case by simp
next
  case (Cons w ws)
  then have w: "w \<noteq> []" and ws: "[] \<notin> set ws" by auto
  have "join_space (chunk_finish (foldl chunk_step st (w # ws)))
      = join_space (chunk_finish (chunk_step st w) @ ws)"
    using Cons.IH[OF ws] by simp
  also have "\<dots> = join_space ((chunk_finish st @ [w]) @ ws)"
    by (rule join_space_append_cong[OF join_chunk_step[OF w] chunk_finish_step_ne[OF w]]) simp
  finally show ?case by simp
qed

lemma chunk_finish_init: "chunk_finish ([], []) = []"
  by (simp add: chunk_finish_def)

lemma splitIntoChunks_join:
  assumes "text = [] \<or> [] \<notin> set (split_space text)"
  shows "join_space (splitIntoChunks text) = text"
proof (cases "text = []")
  case True
  then show ?thesis by (simp add: splitIntoChunks_def chunk_finish_def chunk_step_def)
next
  case False
  with assms have "[] \<notin> set (split_space text)" by simp
  then have "join_space (splitIntoChunks text) = join_space (chunk_finish ([], []) @ split_space text)"
    unfolding splitIntoChunks_def by (rule join_chunk_foldl)
  then show ?thesis by (simp add: chunk_finish_init join_split)
qed

lemma chunk_step_ok:
  assumes "\<forall>c \<in> set (fst st). length c \<le> 50 \<or> c \<in> W"
    "snd st = [] \<or> length (snd st) \<le> 50 \<or> snd st \<in> W"
    "word \<in> W"
  shows "(\<forall>c \<in> set (fst (chunk_step st word)). length c \<le> 50 \<or> c \<in> W)
       \<and> (snd (chunk_step st word) = [] \<or> length (snd (chunk_step st word)) \<le> 50
            \<or> snd (chunk_step st word) \<in> W)"
proof (cases rule: chunk_step_cases[of st word])
  case (fresh chunks)
  with assms show ?thesis by simp
next
  case (close chunks cur)
  with assms show ?thesis by auto
next
  case (extend chunks cur)
  with assms show ?thesis by simp
qed

lemma chunk_foldl_ok:
  assumes "\<forall>c \<in> set (fst st). length c \<le> 50 \<or> c \<in> W" "snd st = [] \<or> length (snd st) \<le> 50 \<or> snd st \<in> W"
    "set ws \<subseteq> W"
  shows "(\<forall>c \<in> set (fst (foldl chunk_step st ws)). length c \<le> 50 \<or> c \<in> W)
       \<and> (snd (foldl chunk_step st ws) = [] \<or> length (snd (foldl chunk_step st ws)) \<le> 50 \<or> snd (foldl chunk_step st ws) \<in> W)"
  using assms
proof (induction ws arbitrary: st)
  case Nil
  then show ?case by simp
next
  case (Cons w ws)
  have w: "w \<in> W" and ws: "set ws \<subseteq> W" using Cons.prems(3) by simp_all
  have step: "(\<forall>c \<in> set (fst (chunk_step st w)). length c \<le> 50 \<or> c \<in> W)
       \<and> (snd (chunk_step st w) = [] \<or> length (snd (chunk_step st w)) \<le> 50 \<or> snd (chunk_step st w) \<in> W)"
    by (rule chunk_step_ok[OF Cons.prems(1,2) w])
  show ?case
    using Cons.IH[of "chunk_step st w", OF conjunct1[OF step] conjunct2[OF step] ws] by simp
qed

lemma splitIntoChunks_bound:
  assumes "c \<in> set (splitIntoChunks text)"
  shows "length c \<le> 50 \<or> c \<in> set (split_space text)"
proof -
  let ?r = "foldl chunk_step ([], []) (split_space text)"
  have inv: "(\<forall>c \<in> set (fst ?r). length c \<le> 50 \<or> c \<in> set (split_space text))
       \<and> (snd ?r = [] \<or> length (snd ?r) \<le> 50 \<or> snd ?r \<in> set (split_space text))"
    by (rule chunk_foldl_ok) simp_all
  from assms have "c \<in> set (fst ?r) \<or> (snd ?r \<noteq> [] \<and> c = snd ?r)"
    by (auto simp: splitIntoChunks_def chunk_finish_def split: if_splits)
  with inv show ?thesis by auto
qed

lemma split_space_single: "CHR '' '' \<notin> set w \<Longrightarrow> split_space w = [w]"
  by (induction w) auto

lemma join_words: "join_space (concat (map split_space cs)) = join_space cs"
proof (induction cs)
  case Nil
  show ?case by simp
next
  case (Cons c cs)
  show ?case
  proof (cases "cs = []")
    case True
    then show ?thesis by (simp add: join_split)
  next
    case False
    then have "concat (map split_space cs) \<noteq> []"
      by (simp add: split_space_ne)
    then show ?thesis
      using Cons False split_space_ne[of c]
      by (simp add: join_space_append join_split join_space_Cons del: join_space.simps)
  qed
qed

text \<open>
  C2, as the code has it. The length bound holds for every text: a chunk longer than 50
  characters is one word of the text, whole. The words of the chunks, joined with single
  spaces, give back the text when the text is empty or none of its space-separated words
  is empty (no space at either end and no two spaces in a row).
\<close>

theorem splitIntoChunks_words_and_bound:
  "(text = [] \<or> [] \<notin> set (split_space text) \<longrightarrow>
      join_space (concat (map split_space (splitIntoChunks text))) = text)
   \<and> (\<forall>c \<in> set (splitIntoChunks text).
        length c \<le> 50 \<or> (c \<in> set (split_space text) \<and> split_space c = [c]))"
proof (intro conjI impI ballI)
  assume "text = [] \<or> [] \<notin> set (split_space text)"
  then show "join_space (concat (map split_space (splitIntoChunks text))) = text"
    by (simp only: join_words splitIntoChunks_join)
next
  fix c
  assume "c \<in> set (splitIntoChunks text)"
  then have "length c \<le> 50 \<or> c \<in> set (split_space text)"
    by (rule splitIntoChunks_bound)
  then show "length c \<le> 50 \<or> (c \<in> set (split_space text) \<and> split_space c = [c])"
    using split_space_no_space[of c "text"] split_space_single[of c] by blast
qed

lemma split_space_hello: "split_space ''Hello there friend'' = [''Hello'', ''there'', ''friend'']"
  by code_simp

lemma splitIntoChunks_hello: "splitIntoChunks ''Hello there friend'' = [''Hello there friend'']"
  by code_simp

theorem splitIntoChunks_words_and_bound_witness:
  "[] \<notin> set (split_space ''Hello there friend'')
   \<and> join_space (concat (map split_space (splitIntoChunks ''Hello there friend'')))
       = ''Hello there friend''
   \<and> ''Hello there friend'' \<in> set (splitIntoChunks ''Hello there friend'')
   \<and> length ''Hello there friend'' \<le> 50"
  using splitIntoChunks_words_and_bound[of "''Hello there friend''"]
  by (simp add: split_space_hello splitIntoChunks_hello)

text \<open>
  C2 as stated fails for a text that starts with a space: the empty first word leaves
  \<open>currentChunk\<close> empty, so the chunks of \<open>" a"\<close> are \<open>["a"]\<close> and the space is lost.
\<close>

theorem splitIntoChunks_leading_space_counterexample:
  "join_space (concat (map split_space (splitIntoChunks '' a''))) \<noteq> '' a''"
  by code_simp

section \<open>Properties of the presenter\<close>

lemma wordCount_pos: "0 < wordCount c"
  by (simp add: wordCount_def split_space_ne)

lemma foldl_wordCount: "foldl (\<lambda>sum chunk. sum + wordCount chunk) a cs = a + sum_list (map wordCount cs)"
  by (induction cs arbitrary: a) simp_all

lemma totalWords_sum: "totalWords chunks = sum_list (map wordCount chunks)"
  by (simp add: totalWords_def foldl_wordCount)

lemma totalWords_pos: "chunks \<noteq> [] \<Longrightarrow> 0 < totalWords chunks"
  using wordCount_pos[of "hd chunks"] by (cases chunks) (simp_all add: totalWords_sum)

lemma subtitle_loop_end: "length chunks \<le> i \<Longrightarrow> subtitle_loop chunks m i = []"
  by (simp add: subtitle_loop.simps[of chunks m i])

lemma subtitle_loop_last:
  "Suc i = length chunks \<Longrightarrow>
   subtitle_loop chunks m i = [SetCurrentSubtitle (chunks ! i), Sleep (of_nat (wordCount (chunks ! i)) * m)]"
  by (simp add: subtitle_loop.simps[of chunks m i] subtitle_loop_end)

lemma subtitle_loop_more:
  "Suc i < length chunks \<Longrightarrow>
   subtitle_loop chunks m i =
     [SetCurrentSubtitle (chunks ! i), Sleep (of_nat (wordCount (chunks ! i)) * m),
      SetCurrentSubtitle [], Sleep 100] @ subtitle_loop chunks m (Suc i)"
  by (simp add: subtitle_loop.simps[of chunks m i])

lemma subtitle_loop_drop:
  "i < length chunks \<Longrightarrow>
   subtitle_loop chunks m i =
     concat (map (\<lambda>c. [SetCurrentSubtitle c, Sleep (of_nat (wordCount c) * m),
                         SetCurrentSubtitle [], Sleep 100]) (butlast (drop i chunks)))
     @ [SetCurrentSubtitle (last chunks), Sleep (of_nat (wordCount (last chunks)) * m)]"
proof (induction "length chunks - i" arbitrary: i)
  case 0
  then show ?case by simp
next
  case (Suc n)
  show ?case
  proof (cases "Suc i = length chunks")
    case True
    have ne0: "chunks \<noteq> []" using Suc.prems by auto
    have "last chunks = chunks ! (length chunks - 1)" by (rule last_conv_nth[OF ne0])
    moreover have "length chunks - 1 = i" using True by simp
    moreover have "drop i chunks = [chunks ! i]"
      using True Suc.prems by (simp add: Cons_nth_drop_Suc[symmetric])
    ultimately have "drop i chunks = [chunks ! i]" "last chunks = chunks ! i" by simp_all
    with True show ?thesis by (simp add: subtitle_loop_last)
  next
    case False
    with Suc.prems have lt: "Suc i < length chunks" by simp
    have n: "n = length chunks - Suc i" using Suc.hyps(2) by simp
    have d: "drop i chunks = chunks ! i # drop (Suc i) chunks"
      using Suc.prems by (simp add: Cons_nth_drop_Suc)
    have ne: "drop (Suc i) chunks \<noteq> []" using lt by simp
    show ?thesis
      using Suc.hyps(1)[OF n lt] ne by (simp add: subtitle_loop_more[OF lt] d)
  qed
qed

lemma sum_list_scale:
  "sum_list (map (\<lambda>c. of_nat (wordCount c) * m) cs) = of_nat (sum_list (map wordCount cs)) * (m::rat)"
  by (induction cs) (simp_all add: algebra_simps)

lemma sum_durations:
  assumes "chunks \<noteq> []"
  shows "sum_list (map (\<lambda>c. of_nat (wordCount c) * (D / of_nat (totalWords chunks))) chunks) = (D::rat)"
proof -
  have "0 < totalWords chunks" by (rule totalWords_pos[OF assms])
  then have nz: "(of_nat (totalWords chunks) :: rat) \<noteq> 0" by simp
  have "sum_list (map (\<lambda>c. of_nat (wordCount c) * (D / of_nat (totalWords chunks))) chunks)
      = of_nat (totalWords chunks) * (D / of_nat (totalWords chunks))"
    by (simp only: sum_list_scale totalWords_sum)
  also have "\<dots> = D" using nz by simp
  finally show ?thesis .
qed

lemma showSubtitlesWithAudio_explicit:
  assumes "chunks \<noteq> []"
  shows "showSubtitlesWithAudio chunks D =
     [SetOpacity 1, SetTranslateY 0]
     @ concat (map (\<lambda>c. [SetCurrentSubtitle c,
                          Sleep (of_nat (wordCount c) * (D / of_nat (totalWords chunks))),
                          SetCurrentSubtitle [], Sleep 100]) (butlast chunks))
     @ [SetCurrentSubtitle (last chunks),
        Sleep (of_nat (wordCount (last chunks)) * (D / of_nat (totalWords chunks)))]"
  using assms subtitle_loop_drop[of 0 chunks "D / of_nat (totalWords chunks)"]
  by (simp add: showSubtitlesWithAudio_def)

lemma wordCount_hello_there: "wordCount ''Hello there'' = 2"
  by code_simp

lemma wordCount_my_good_friend: "wordCount ''my good friend'' = 3"
  by code_simp

text \<open>
  C1. For every chunk sequence that is not empty and every duration \<open>D\<close>, the presenter
  sets the opacity and offset, then for each chunk but the last shows it, waits
  \<open>wordCount chunk * (D / totalWords)\<close>, clears the subtitle and waits 100ms, and for the
  last chunk shows it and waits its share with no gap after it. With \<open>D = 3000\<close> and
  chunks of 2 and 3 words the waits are 1200, 100 and 1800, and the display durations add
  up to 3000.
\<close>

theorem showSubtitlesWithAudio_schedule:
  "(chunks \<noteq> [] \<longrightarrow>
      totalWords chunks = sum_list (map wordCount chunks)
      \<and> showSubtitlesWithAudio chunks D =
          [SetOpacity 1, SetTranslateY 0]
          @ concat (map (\<lambda>c. [SetCurrentSubtitle c,
                               Sleep (of_nat (wordCount c) * (D / of_nat (totalWords chunks))),
                               SetCurrentSubtitle [], Sleep 100]) (butlast chunks))
          @ [SetCurrentSubtitle (last chunks),
             Sleep (of_nat (wordCount (last chunks)) * (D / of_nat (totalWords chunks)))])
   \<and> (wordCount c1 = 2 \<and> wordCount c2 = 3 \<longrightarrow>
        showSubtitlesWithAudio [c1, c2] 3000 =
          [SetOpacity 1, SetTranslateY 0, SetCurrentSubtitle c1, Sleep 1200,
           SetCurrentSubtitle [], Sleep 100, SetCurrentSubtitle c2, Sleep 1800]
        \<and> sum_list (display_durations (showSubtitlesWithAudio [c1, c2] 3000)) = 3000)"
proof (intro conjI impI)
  assume "chunks \<noteq> []"
  then show "showSubtitlesWithAudio chunks D =
          [SetOpacity 1, SetTranslateY 0]
          @ concat (map (\<lambda>c. [SetCurrentSubtitle c,
                               Sleep (of_nat (wordCount c) * (D / of_nat (totalWords chunks))),
                               SetCurrentSubtitle [], Sleep 100]) (butlast chunks))
          @ [SetCurrentSubtitle (last chunks),
             Sleep (of_nat (wordCount (last chunks)) * (D / of_nat (totalWords chunks)))]"
    by (rule showSubtitlesWithAudio_explicit)
next
  show "totalWords chunks = sum_list (map wordCount chunks)"
    by (rule totalWords_sum)
next
  assume h: "wordCount c1 = 2 \<and> wordCount c2 = 3"
  have script: "showSubtitlesWithAudio [c1, c2] 3000 =
          [SetOpacity 1, SetTranslateY 0, SetCurrentSubtitle c1, Sleep 1200,
           SetCurrentSubtitle [], Sleep 100, SetCurrentSubtitle c2, Sleep 1800]"
    using showSubtitlesWithAudio_explicit[of "[c1, c2]" 3000] h
    by (simp add: totalWords_sum)
  have "c1 \<noteq> []" "c2 \<noteq> []"
    using h by (auto simp: wordCount_def)
  then have "sum_list (display_durations (showSubtitlesWithAudio [c1, c2] 3000)) = 3000"
    by (simp add: script)
  with script show "showSubtitlesWithAudio [c1, c2] 3000 =
          [SetOpacity 1, SetTranslateY 0, SetCurrentSubtitle c1, Sleep 1200,
           SetCurrentSubtitle [], Sleep 100, SetCurrentSubtitle c2, Sleep 1800]"
    and "sum_list (display_durations (showSubtitlesWithAudio [c1, c2] 3000)) = 3000"
    by simp_all
qed

theorem showSubtitlesWithAudio_schedule_witness:
  "[''Hello there'', ''my good friend''] \<noteq> []
   \<and> wordCount ''Hello there'' = 2 \<and> wordCount ''my good friend'' = 3
   \<and> showSubtitlesWithAudio [''Hello there'', ''my good friend''] 3000 =
       [SetOpacity 1, SetTranslateY 0, SetCurrentSubtitle ''Hello there'', Sleep 1200,
        SetCurrentSubtitle [], Sleep 100, SetCurrentSubtitle ''my good friend'', Sleep 1800]
   \<and> sum_list (display_durations
         (showSubtitlesWithAudio [''Hello there'', ''my good friend''] 3000)) = 3000"
  using showSubtitlesWithAudio_schedule
          [of "[''Hello there'', ''my good friend'']" 3000 "''Hello there''" "''my good friend''"]
  by (simp add: wordCount_hello_there wordCount_my_good_friend)

section \<open>Properties of playback and of the session\<close>

lemma synthesize_snd:
  "snd (synthesize v f t e) = (if synthesisFails e then Rejected else Fulfilled (cacheDirectory e @ f))"
  unfolding synthesize_def synthesisFails_def Let_def by (simp split: outcome.split)

lemma synthesize_fst:
  "fst (synthesize v f t e) = [Fetch (ttsRequest (apiKey e) v t)]
   \<or> fst (synthesize v f t e) = [Fetch (ttsRequest (apiKey e) v t), WriteFile (cacheDirectory e @ f)]"
  unfolding synthesize_def Let_def by (simp split: outcome.split)

lemma synthesize_fetches:
  "filter isFetch (fst (synthesize v f t e)) = [Fetch (ttsRequest (apiKey e) v t)]"
  using synthesize_fst[of v f t e] by auto

lemma synthesize_live: "live_after live (fst (synthesize v f t e)) = live"
  using synthesize_fst[of v f t e] by auto

lemma loadAndPlay_events:
  "fst (loadAndPlay f cb e s) =
     (case soundRef s of None \<Rightarrow> [] | Some prev \<Rightarrow> [Unload prev (unloadResult e)])
     @ (if soundRef s \<noteq> None \<and> unloadResult e = Rejected then []
        else case createResult e of Rejected \<Rightarrow> []
             | Fulfilled sound \<Rightarrow> [Create f sound, GetStatus sound]
                 @ (case statusResult e of Rejected \<Rightarrow> [] | Fulfilled st \<Rightarrow> [SetListener sound]))"
  unfolding loadAndPlay_def Let_def by (simp split: outcome.split option.split)

lemma loadAndPlay_no_fetch: "filter isFetch (fst (loadAndPlay f cb e s)) = []"
  unfolding loadAndPlay_events by (simp split: outcome.split option.split)

lemma play_fail_both:
  assumes "synthesisFails e"
  shows "playElevenLabsAudio t fin cb e s =
           (fst (synthesize narratorVoiceId ''temp_audio.mp3'' t e), fin s)"
proof -
  obtain evs r where syn: "synthesize narratorVoiceId ''temp_audio.mp3'' t e = (evs, r)"
    by (cases "synthesize narratorVoiceId ''temp_audio.mp3'' t e")
  have "r = Rejected"
    using synthesize_snd[of narratorVoiceId "''temp_audio.mp3''" t e] assms syn by simp
  with syn show ?thesis by (simp add: playElevenLabsAudio_def)
qed

lemma play_ok:
  assumes "\<not> synthesisFails e"
  shows "playElevenLabsAudio t fin cb e s =
     (fst (synthesize narratorVoiceId ''temp_audio.mp3'' t e)
        @ fst (loadAndPlay (cacheDirectory e @ ''temp_audio.mp3'') cb e s),
      if snd (snd (loadAndPlay (cacheDirectory e @ ''temp_audio.mp3'') cb e s))
      then fin (fst (snd (loadAndPlay (cacheDirectory e @ ''temp_audio.mp3'') cb e s)))
      else fst (snd (loadAndPlay (cacheDirectory e @ ''temp_audio.mp3'') cb e s)))"
proof -
  obtain evs r where syn: "synthesize narratorVoiceId ''temp_audio.mp3'' t e = (evs, r)"
    by (cases "synthesize narratorVoiceId ''temp_audio.mp3'' t e")
  have r: "r = Fulfilled (cacheDirectory e @ ''temp_audio.mp3'')"
    using synthesize_snd[of narratorVoiceId "''temp_audio.mp3''" t e] assms syn by simp
  obtain evs2 s' threw where
    lp: "loadAndPlay (cacheDirectory e @ ''temp_audio.mp3'') cb e s = (evs2, s', threw)"
    by (cases "loadAndPlay (cacheDirectory e @ ''temp_audio.mp3'') cb e s")
  show ?thesis by (simp add: playElevenLabsAudio_def syn r lp)
qed

lemma play_fetches:
  "filter isFetch (fst (playElevenLabsAudio t fin cb e s)) = [Fetch (ttsRequest (apiKey e) narratorVoiceId t)]"
  by (cases "synthesisFails e") (simp_all add: play_fail_both play_ok synthesize_fetches loadAndPlay_no_fetch)


subsection \<open>What the callbacks leave unchanged\<close>

lemma run_display_frame:
  "soundRef (fst (run_display ops s)) = soundRef s
   \<and> listener (fst (run_display ops s)) = listener s
   \<and> timers (fst (run_display ops s)) = timers s
   \<and> resolveCalls (fst (run_display ops s)) = resolveCalls s
   \<and> subtitlesStarted (fst (run_display ops s)) = subtitlesStarted s
   \<and> stage (fst (run_display ops s)) = stage s"
  by (induction ops s rule: run_display.induct) simp_all

lemma suspend_frame:
  "soundRef (suspend r) = soundRef (fst r)
   \<and> listener (suspend r) = listener (fst r)
   \<and> resolveCalls (suspend r) = resolveCalls (fst r)
   \<and> subtitlesStarted (suspend r) = subtitlesStarted (fst r)
   \<and> stage (suspend r) = stage (fst r)
   \<and> take (length (timers (fst r))) (timers (suspend r)) = timers (fst r)"
  by (simp add: suspend_def)

lemma startSubtitles_frame:
  "soundRef (startSubtitles ch d s) = soundRef s
   \<and> listener (startSubtitles ch d s) = listener s
   \<and> resolveCalls (startSubtitles ch d s) = resolveCalls s
   \<and> subtitlesStarted (startSubtitles ch d s) = subtitlesStarted s
   \<and> stage (startSubtitles ch d s) = stage s
   \<and> take (length (timers s)) (timers (startSubtitles ch d s)) = timers s"
  unfolding startSubtitles_def
  using suspend_frame[of "run_display (showSubtitlesWithAudio ch d) s"]
        run_display_frame[of "showSubtitlesWithAudio ch d" s]
  by simp

lemma onDuration_frame:
  "soundRef (onDuration ch d s) = soundRef s
   \<and> listener (onDuration ch d s) = listener s
   \<and> resolveCalls (onDuration ch d s) = resolveCalls s
   \<and> stage (onDuration ch d s) = stage s
   \<and> take (length (timers s)) (timers (onDuration ch d s)) = timers s"
  unfolding onDuration_def
  using startSubtitles_frame[of ch d "s\<lparr>subtitlesStarted := True\<rparr>"]
  by simp

lemma resolve_frame:
  "soundRef (resolve s) = soundRef s \<and> listener (resolve s) = listener s
   \<and> timers (resolve s) = timers s \<and> currentSubtitle (resolve s) = currentSubtitle s
   \<and> stage (resolve s) = stage s \<and> resolveCalls (resolve s) = resolveCalls s + 1"
  by (simp add: resolve_def)

subsection \<open>A failed synthesis\<close>

lemma speak_fail:
  assumes "synthesisFails e"
  shows "snd (speakTrainingMessage e s) =
           resolve (s\<lparr>stage := Speaking, subtitlesStarted := False, resolveCalls := 0\<rparr>)"
  unfolding speakTrainingMessage_def Let_def by (simp add: play_fail_both[OF assms])

lemma synthesize_no_listener: "SetListener x \<notin> set (fst (synthesize v f t e))"
  using synthesize_fst[of v f t e] by auto

lemma greeting_fail_voice:
  assumes "synthesisFails e"
    and v: "(if avatarGender a = Male then maleVoiceId else femaleVoiceId) = v"
  shows "snd (playGreeting u hc e a) = a"
    and "filter (\<lambda>ev. ev = GreetingComplete) (fst (playGreeting u hc e a)) = greetingComplete hc"
    and "SetListener x \<notin> set (fst (playGreeting u hc e a))"
proof -
  let ?t = "''Hello '' @ u @ ''! Looking forward to working together!''"
  obtain evs r where syn: "synthesize v ''avatar_greeting.mp3'' ?t e = (evs, r)"
    by (cases "synthesize v ''avatar_greeting.mp3'' ?t e")
  have r: "r = Rejected"
    using synthesize_snd[of v "''avatar_greeting.mp3''" ?t e] assms(1) syn by simp
  have evs: "evs = [Fetch (ttsRequest (apiKey e) v ?t)]
             \<or> evs = [Fetch (ttsRequest (apiKey e) v ?t), WriteFile (cacheDirectory e @ ''avatar_greeting.mp3'')]"
    using synthesize_fst[of v "''avatar_greeting.mp3''" ?t e] syn by simp
  have pg: "playGreeting u hc e a =
      (case audioModeResult e of
         Rejected \<Rightarrow> ([SetAudioMode] @ greetingComplete hc, a)
       | Fulfilled w \<Rightarrow> ([SetAudioMode] @ evs @ greetingComplete hc, a))"
    unfolding playGreeting_def Let_def v using syn r by (simp split: outcome.split)
  show "snd (playGreeting u hc e a) = a"
    by (simp add: pg split: outcome.split)
  show "filter (\<lambda>ev. ev = GreetingComplete) (fst (playGreeting u hc e a)) = greetingComplete hc"
    using evs by (auto simp: pg greetingComplete_def split: outcome.split)
  show "SetListener x \<notin> set (fst (playGreeting u hc e a))"
    using evs by (auto simp: pg greetingComplete_def split: outcome.split)
qed

text \<open>
  C3. When the synthesis step fails, \<open>playElevenLabsAudio\<close> calls \<open>onFinish\<close> once,
  on the state it was started in, and registers no playback callback that could call it
  again. For the session of the training screen: \<open>resolve\<close> has been called exactly
  once, the subtitle and the pending timers are as before (empty on a fresh screen), and
  the session goes on to the \<open>continue\<close> stage. \<open>playGreeting\<close> leaves the avatar's
  state as it was and calls \<open>onGreetingComplete\<close> once when the prop is given.
\<close>

theorem synthesis_failure_completes:
  "synthesisFails e \<longrightarrow>
     snd (playElevenLabsAudio t onFinish cb e s) = onFinish s
     \<and> (\<forall>x. SetListener x \<notin> set (fst (playElevenLabsAudio t onFinish cb e s)))
     \<and> resolveCalls (snd (speakTrainingMessage e s)) = 1
     \<and> currentSubtitle (snd (speakTrainingMessage e s)) = currentSubtitle s
     \<and> timers (snd (speakTrainingMessage e s)) = timers s
     \<and> listener (snd (speakTrainingMessage e s)) = listener s
     \<and> stage (afterAudio (snd (speakTrainingMessage e s))) = Continue
     \<and> (listener s = None \<longrightarrow>
          (\<forall>x st. deliverStatus resolve x st (snd (speakTrainingMessage e s)) = snd (speakTrainingMessage e s)))
     \<and> snd (playGreeting userName hasCallback e a) = a
     \<and> filter (\<lambda>ev. ev = GreetingComplete) (fst (playGreeting userName hasCallback e a))
         = (if hasCallback then [GreetingComplete] else [])
     \<and> (\<forall>x. SetListener x \<notin> set (fst (playGreeting userName hasCallback e a)))"
proof
  assume f: "synthesisFails e"
  have sp: "snd (speakTrainingMessage e s) =
           resolve (s\<lparr>stage := Speaking, subtitlesStarted := False, resolveCalls := 0\<rparr>)"
    by (rule speak_fail[OF f])
  show "snd (playElevenLabsAudio t onFinish cb e s) = onFinish s
     \<and> (\<forall>x. SetListener x \<notin> set (fst (playElevenLabsAudio t onFinish cb e s)))
     \<and> resolveCalls (snd (speakTrainingMessage e s)) = 1
     \<and> currentSubtitle (snd (speakTrainingMessage e s)) = currentSubtitle s
     \<and> timers (snd (speakTrainingMessage e s)) = timers s
     \<and> listener (snd (speakTrainingMessage e s)) = listener s
     \<and> stage (afterAudio (snd (speakTrainingMessage e s))) = Continue
     \<and> (listener s = None \<longrightarrow>
          (\<forall>x st. deliverStatus resolve x st (snd (speakTrainingMessage e s)) = snd (speakTrainingMessage e s)))
     \<and> snd (playGreeting userName hasCallback e a) = a
     \<and> filter (\<lambda>ev. ev = GreetingComplete) (fst (playGreeting userName hasCallback e a))
         = (if hasCallback then [GreetingComplete] else [])
     \<and> (\<forall>x. SetListener x \<notin> set (fst (playGreeting userName hasCallback e a)))"
    using greeting_fail_voice[OF f refl, where u = userName and hc = hasCallback and a = a]
    by (simp add: play_fail_both[OF f] synthesize_no_listener sp resolve_def afterAudio_def
                  deliverStatus_def greetingComplete_def)
qed

theorem synthesis_failure_completes_witness:
  "synthesisFails http500
   \<and> resolveCalls (snd (speakTrainingMessage http500 initialScreen)) = 1
   \<and> currentSubtitle (snd (speakTrainingMessage http500 initialScreen)) = []
   \<and> timers (snd (speakTrainingMessage http500 initialScreen)) = []
   \<and> stage (afterAudio (snd (speakTrainingMessage http500 initialScreen))) = Continue
   \<and> listener initialScreen = None
   \<and> filter (\<lambda>ev. ev = GreetingComplete) (fst (playGreeting ''Ann'' True http500 initialAvatar)) = [GreetingComplete]"
  using synthesis_failure_completes[where e = http500 and s = initialScreen and userName = "''Ann''" and hasCallback = True
             and a = initialAvatar and t = "''x''" and onFinish = resolve and cb = None]
  by (simp add: synthesisFails_def http500_def initialScreen_def)


subsection \<open>The synthesis request\<close>

lemma greeting_fetches:
  assumes v: "(if avatarGender a = Male then maleVoiceId else femaleVoiceId) = v"
  shows "filter isFetch (fst (playGreeting u hc e a)) =
     (case audioModeResult e of
        Rejected \<Rightarrow> []
      | Fulfilled w \<Rightarrow>
          [Fetch (ttsRequest (apiKey e) v (''Hello '' @ u @ ''! Looking forward to working together!''))])"
proof -
  let ?t = "''Hello '' @ u @ ''! Looking forward to working together!''"
  obtain evs r where syn: "synthesize v ''avatar_greeting.mp3'' ?t e = (evs, r)"
    by (cases "synthesize v ''avatar_greeting.mp3'' ?t e")
  have evs: "filter isFetch evs = [Fetch (ttsRequest (apiKey e) v ?t)]"
    using synthesize_fetches[of v "''avatar_greeting.mp3''" ?t e] syn by simp
  show ?thesis
    unfolding playGreeting_def Let_def v using syn evs
    by (simp add: greetingComplete_def split: outcome.split)
qed

lemma voices_distinct:
  "narratorVoiceId \<noteq> maleVoiceId \<and> narratorVoiceId \<noteq> femaleVoiceId \<and> maleVoiceId \<noteq> femaleVoiceId"
  by (simp add: narratorVoiceId_def maleVoiceId_def femaleVoiceId_def)

text \<open>
  C8. A run of \<open>playElevenLabsAudio\<close> calls \<open>fetch\<close> exactly once, with the narrator's
  voice; a run of \<open>playGreeting\<close> calls it exactly once when the audio mode could be
  set (and not at all otherwise), with the male or the female voice by \<open>avatarGender\<close>.
  The request is a POST to the voice's URL with the key in the header \<open>xi-api-key\<close> and
  the body \<open>{ text, model_id, voice_settings }\<close>; the three voices differ.
\<close>

theorem synthesis_request_shape:
  "filter isFetch (fst (playElevenLabsAudio t onFinish cb e s))
     = [Fetch (ttsRequest (apiKey e) narratorVoiceId t)]
   \<and> filter isFetch (fst (playGreeting userName hasCallback e a))
     = (if audioModeResult e = Rejected then []
        else [Fetch (ttsRequest (apiKey e)
                       (if avatarGender a = Male then maleVoiceId else femaleVoiceId)
                       (''Hello '' @ userName @ ''! Looking forward to working together!''))])
   \<and> req_method (ttsRequest key voiceId t) = ''POST''
   \<and> req_url (ttsRequest key voiceId t)
       = ''https://api.elevenlabs.io/v1/text-to-speech/'' @ voiceId @ ''?output_format=mp3_44100_128''
   \<and> map_of (req_headers (ttsRequest key voiceId t)) ''xi-api-key'' = Some key
   \<and> req_body (ttsRequest key voiceId t)
       = \<lparr> body_text = t, model_id = ''eleven_flash_v2_5'',
           body_voice_settings = \<lparr> stability = 7 / 10, similarity_boost = 1 / 2, style = 0,
                                   use_speaker_boost = False \<rparr> \<rparr>
   \<and> narratorVoiceId \<noteq> maleVoiceId \<and> narratorVoiceId \<noteq> femaleVoiceId
   \<and> maleVoiceId \<noteq> femaleVoiceId"
  using greeting_fetches[OF refl, where a = a and u = userName and hc = hasCallback and e = e] voices_distinct
  by (simp add: play_fetches ttsRequest_def split: outcome.split)

theorem synthesis_request_shape_witness:
  "audioModeResult http500 \<noteq> Rejected
   \<and> filter isFetch (fst (playGreeting ''Ann'' True http500 (initialAvatar\<lparr>avatarGender := Female\<rparr>)))
     = [Fetch (ttsRequest ''key'' femaleVoiceId ''Hello Ann! Looking forward to working together!'')]"
  using synthesis_request_shape[where e = http500 and a = "initialAvatar\<lparr>avatarGender := Female\<rparr>" and userName = "''Ann''" and hasCallback = True]
  by (simp add: http500_def)


subsection \<open>One sound at a time\<close>

lemma live_after_append: "live_after live (xs @ ys) = live_after (live_after live xs) ys"
  by (induction live xs rule: live_after.induct) simp_all

lemma one_at_a_time_append:
  "one_at_a_time live (xs @ ys) = (one_at_a_time live xs \<and> one_at_a_time (live_after live xs) ys)"
proof (induction xs arbitrary: live)
  case Nil
  show ?case by (cases ys) auto
next
  case (Cons x xs)
  show ?case using Cons[of "live_after live [x]"] live_after_append[of live "[x]" xs] by simp
qed

lemma at_most_one_simps:
  "at_most_one {}" "at_most_one {b}" "at_most_one live \<Longrightarrow> at_most_one (live - A)"
  "live \<subseteq> {a} \<Longrightarrow> at_most_one live" "live \<subseteq> {a} \<Longrightarrow> live - {a} = {}"
  unfolding at_most_one_def by blast+

lemma one_at_a_time_take:
  "one_at_a_time live evs \<Longrightarrow> at_most_one (live_after live (take n evs))"
proof (induction evs arbitrary: live n)
  case Nil
  then show ?case by simp
next
  case (Cons ev evs)
  show ?case
  proof (cases n)
    case 0
    with Cons.prems show ?thesis by simp
  next
    case (Suc m)
    have "one_at_a_time (live_after live [ev]) evs" using Cons.prems by simp
    from Cons.IH[OF this, of m] show ?thesis
      using Suc live_after_append[of live "[ev]" "take m evs"] by simp
  qed
qed

lemma unit_outcome: "(r :: unit outcome) \<noteq> Rejected \<longleftrightarrow> r = Fulfilled ()"
  by (cases r) simp_all

lemma synthesize_one_at_a_time:
  assumes "at_most_one live"
  shows "one_at_a_time live (fst (synthesize v f t e))"
  using assms synthesize_fst[of v f t e] by auto

lemma loadAndPlay_soundRef:
  assumes "\<And>c d x. cb = Some c \<Longrightarrow> soundRef (c d x) = soundRef x"
  shows "soundRef (fst (snd (loadAndPlay f cb e s))) =
     (if soundRef s \<noteq> None \<and> unloadResult e = Rejected then soundRef s
      else case createResult e of Rejected \<Rightarrow> soundRef s | Fulfilled b \<Rightarrow> Some b)"
  using assms unfolding loadAndPlay_def Let_def
  by (simp split: outcome.split option.split)

lemma loadAndPlay_safe:
  assumes "live \<subseteq> set_option (soundRef s)"
  shows "one_at_a_time live (fst (loadAndPlay f cb e s))
       \<and> live_after live (fst (loadAndPlay f cb e s)) \<subseteq>
           set_option (if soundRef s \<noteq> None \<and> unloadResult e = Rejected then soundRef s
                       else case createResult e of Rejected \<Rightarrow> soundRef s | Fulfilled b \<Rightarrow> Some b)"
proof (cases "soundRef s")
  case None
  with assms have live: "live = {}" by simp
  show ?thesis
    unfolding loadAndPlay_events using None live
    by (simp add: at_most_one_simps split: outcome.split)
next
  case (Some a)
  with assms have live: "live \<subseteq> {a}" by simp
  show ?thesis
  proof (cases "unloadResult e")
    case Rejected
    then show ?thesis
      unfolding loadAndPlay_events using Some live by (simp add: at_most_one_simps)
  next
    case (Fulfilled u)
    then show ?thesis
      unfolding loadAndPlay_events using Some live
      by (simp add: at_most_one_simps split: outcome.split)
  qed
qed

lemma loadAndPlay_order:
  assumes "soundRef s = Some a" "Create g b \<in> set (fst (loadAndPlay f cb e s))"
  shows "(\<exists>post. fst (loadAndPlay f cb e s) = [Unload a (Fulfilled ()), Create g b] @ post)
       \<and> createResult e = Fulfilled b \<and> unloadResult e = Fulfilled ()"
proof (cases "unloadResult e")
  case Rejected
  with assms show ?thesis unfolding loadAndPlay_events by simp
next
  case (Fulfilled u)
  with assms show ?thesis unfolding loadAndPlay_events
    by (cases "createResult e"; cases "statusResult e") auto
qed

lemma session_callbacks_soundRef:
  "(Some (onDuration ch) :: (rat \<Rightarrow> screen \<Rightarrow> screen) option) = Some c \<Longrightarrow> soundRef (c d x) = soundRef x"
  using onDuration_frame[of ch d x] by auto

lemma play_safe:
  assumes "live \<subseteq> set_option (soundRef s)"
  shows "one_at_a_time live (fst (playElevenLabsAudio t resolve (Some (onDuration ch)) e s))
       \<and> live_after live (fst (playElevenLabsAudio t resolve (Some (onDuration ch)) e s))
           \<subseteq> set_option (soundRef (snd (playElevenLabsAudio t resolve (Some (onDuration ch)) e s)))"
proof -
  have amo: "at_most_one live"
    using assms by (cases "soundRef s") (simp_all add: at_most_one_simps)
  show ?thesis
  proof (cases "synthesisFails e")
    case True
    then show ?thesis
      using assms synthesize_one_at_a_time[OF amo]
      by (simp add: play_fail_both synthesize_live resolve_def)
  next
    case False
    let ?f = "cacheDirectory e @ ''temp_audio.mp3''"
    let ?cb = "Some (onDuration ch)"
    have sr: "soundRef (fst (snd (loadAndPlay ?f ?cb e s))) =
       (if soundRef s \<noteq> None \<and> unloadResult e = Rejected then soundRef s
        else case createResult e of Rejected \<Rightarrow> soundRef s | Fulfilled b \<Rightarrow> Some b)"
      by (rule loadAndPlay_soundRef) (rule session_callbacks_soundRef)
    have sr': "soundRef (snd (playElevenLabsAudio t resolve ?cb e s))
              = soundRef (fst (snd (loadAndPlay ?f ?cb e s)))"
      by (simp add: play_ok[OF False] resolve_def)
    have ev: "fst (playElevenLabsAudio t resolve ?cb e s)
              = fst (synthesize narratorVoiceId ''temp_audio.mp3'' t e) @ fst (loadAndPlay ?f ?cb e s)"
      by (simp add: play_ok[OF False])
    show ?thesis
      unfolding ev sr' sr one_at_a_time_append live_after_append synthesize_live
      using loadAndPlay_safe[OF assms, of ?f ?cb e] synthesize_one_at_a_time[OF amo]
      by blast
  qed
qed

lemma play_order:
  assumes "soundRef s = Some a" "Create g b \<in> set (fst (playElevenLabsAudio t fin cb e s))"
  shows "\<exists>pre post. fst (playElevenLabsAudio t fin cb e s) = pre @ [Unload a (Fulfilled ()), Create g b] @ post"
proof (cases "synthesisFails e")
  case True
  then show ?thesis
    using assms(2) synthesize_fst[of narratorVoiceId "''temp_audio.mp3''" t e]
    by (auto simp: play_fail_both)
next
  case False
  let ?f = "cacheDirectory e @ ''temp_audio.mp3''"
  have "Create g b \<in> set (fst (loadAndPlay ?f cb e s))"
    using assms(2) synthesize_fst[of narratorVoiceId "''temp_audio.mp3''" t e]
    by (auto simp: play_ok[OF False])
  from loadAndPlay_order[OF assms(1) this] obtain post where
    "fst (loadAndPlay ?f cb e s) = [Unload a (Fulfilled ()), Create g b] @ post" by blast
  then have "fst (playElevenLabsAudio t fin cb e s)
     = fst (synthesize narratorVoiceId ''temp_audio.mp3'' t e) @ [Unload a (Fulfilled ()), Create g b] @ post"
    by (simp add: play_ok[OF False])
  then show ?thesis by blast
qed


lemma play_created_ref:
  assumes "Create g b \<in> set (fst (playElevenLabsAudio t resolve (Some (onDuration ch)) e s))"
  shows "soundRef (snd (playElevenLabsAudio t resolve (Some (onDuration ch)) e s)) = Some b"
proof (cases "synthesisFails e")
  case True
  then show ?thesis
    using assms synthesize_fst[of narratorVoiceId "''temp_audio.mp3''" t e]
    by (auto simp: play_fail_both)
next
  case False
  let ?f = "cacheDirectory e @ ''temp_audio.mp3''"
  let ?cb = "Some (onDuration ch)"
  have c: "Create g b \<in> set (fst (loadAndPlay ?f ?cb e s))"
    using assms synthesize_fst[of narratorVoiceId "''temp_audio.mp3''" t e]
    by (auto simp: play_ok[OF False])
  have sr: "soundRef (fst (snd (loadAndPlay ?f ?cb e s))) =
       (if soundRef s \<noteq> None \<and> unloadResult e = Rejected then soundRef s
        else case createResult e of Rejected \<Rightarrow> soundRef s | Fulfilled b \<Rightarrow> Some b)"
    by (rule loadAndPlay_soundRef) (rule session_callbacks_soundRef)
  have "soundRef (fst (snd (loadAndPlay ?f ?cb e s))) = Some b"
    using c unfolding sr loadAndPlay_events
    by (auto split: outcome.splits option.splits if_splits)
  then show ?thesis by (simp add: play_ok[OF False] resolve_def)
qed

text \<open>
  C4. Two consecutive loads of one screen, as its sessions make them. If the sounds
  loaded at the start are at most the one in \<open>soundRef\<close>, then at every point of both
  runs at most one sound is loaded, afterwards the loaded sounds are at most the one in
  \<open>soundRef\<close>, and when the second run creates sound \<open>b\<close> while \<open>soundRef\<close> holds
  \<open>a\<close>, the fulfilled \<open>unloadAsync\<close> of \<open>a\<close> comes directly before the creation of
  \<open>b\<close>, which becomes the current sound.
\<close>

theorem consecutive_loads_release_previous:
  assumes inv: "live \<subseteq> set_option (soundRef s)"
    and r1: "r1 = playElevenLabsAudio t1 resolve (Some (onDuration ch1)) e1 s"
    and r2: "r2 = playElevenLabsAudio t2 resolve (Some (onDuration ch2)) e2 (snd r1)"
  shows "(\<forall>n. at_most_one (live_after live (take n (fst r1 @ fst r2))))
       \<and> live_after live (fst r1 @ fst r2) \<subseteq> set_option (soundRef (snd r2))
       \<and> (\<forall>a g b. soundRef (snd r1) = Some a \<and> Create g b \<in> set (fst r2) \<longrightarrow>
             (\<exists>pre post. fst r2 = pre @ [Unload a (Fulfilled ()), Create g b] @ post)
             \<and> soundRef (snd r2) = Some b)"
proof -
  have s1: "one_at_a_time live (fst r1)"
    and l1: "live_after live (fst r1) \<subseteq> set_option (soundRef (snd r1))"
    using play_safe[OF inv, of t1 ch1 e1] r1 by simp_all
  have s2: "one_at_a_time (live_after live (fst r1)) (fst r2)"
    and l2: "live_after (live_after live (fst r1)) (fst r2) \<subseteq> set_option (soundRef (snd r2))"
    using play_safe[OF l1, of t2 ch2 e2] r2 by simp_all
  have "one_at_a_time live (fst r1 @ fst r2)"
    using s1 s2 by (simp add: one_at_a_time_append)
  then have a: "\<forall>n. at_most_one (live_after live (take n (fst r1 @ fst r2)))"
    using one_at_a_time_take by blast
  have b: "live_after live (fst r1 @ fst r2) \<subseteq> set_option (soundRef (snd r2))"
    using l2 by (simp add: live_after_append)
  have c: "\<forall>a g b. soundRef (snd r1) = Some a \<and> Create g b \<in> set (fst r2) \<longrightarrow>
             (\<exists>pre post. fst r2 = pre @ [Unload a (Fulfilled ()), Create g b] @ post)
             \<and> soundRef (snd r2) = Some b"
    using play_order[of "snd r1" _ _ _ t2 resolve "Some (onDuration ch2)" e2]
          play_created_ref[of _ _ t2 ch2 e2 "snd r1"] r2 by blast
  from a b c show ?thesis by blast
qed

lemma first_load_ref:
  "soundRef (snd (playElevenLabsAudio ''one'' resolve (Some (onDuration [''one'']))
                    (playing 7 (loaded (Some 3000))) initialScreen)) = Some 7"
  by code_simp

lemma second_load_events:
  "fst (playElevenLabsAudio ''two'' resolve (Some (onDuration [''two''])) (playing 8 (loaded (Some 3000)))
         (snd (playElevenLabsAudio ''one'' resolve (Some (onDuration [''one'']))
                 (playing 7 (loaded (Some 3000))) initialScreen)))
   = [Fetch (ttsRequest ''key'' narratorVoiceId ''two''), WriteFile ''file:///cache/temp_audio.mp3'',
      Unload 7 (Fulfilled ()), Create ''file:///cache/temp_audio.mp3'' 8, GetStatus 8, SetListener 8]"
  by code_simp

theorem consecutive_loads_release_previous_witness:
  "{} \<subseteq> set_option (soundRef initialScreen)
   \<and> soundRef (snd (playElevenLabsAudio ''one'' resolve (Some (onDuration [''one'']))
                    (playing 7 (loaded (Some 3000))) initialScreen)) = Some 7
   \<and> Create ''file:///cache/temp_audio.mp3'' 8 \<in> set (fst (playElevenLabsAudio ''two'' resolve (Some (onDuration [''two''])) (playing 8 (loaded (Some 3000)))
         (snd (playElevenLabsAudio ''one'' resolve (Some (onDuration [''one'']))
                 (playing 7 (loaded (Some 3000))) initialScreen))))
   \<and> soundRef (snd (playElevenLabsAudio ''two'' resolve (Some (onDuration [''two''])) (playing 8 (loaded (Some 3000)))
         (snd (playElevenLabsAudio ''one'' resolve (Some (onDuration [''one'']))
                 (playing 7 (loaded (Some 3000))) initialScreen)))) = Some 8"
  using consecutive_loads_release_previous[where live = "{}" and s = initialScreen and ?t1.0 = "''one''" and ?ch1.0 = "[''one'']"
             and ?e1.0 = "playing 7 (loaded (Some 3000))" and ?t2.0 = "''two''" and ?ch2.0 = "[''two'']"
             and ?e2.0 = "playing 8 (loaded (Some 3000))", OF _ refl refl]
        first_load_ref second_load_events
  by simp


subsection \<open>A sound that reports no duration\<close>

lemma loadAndPlay_cong:
  assumes "\<And>st d x. statusResult e = Fulfilled st \<Longrightarrow> isLoaded st \<Longrightarrow>
             durationMillis st = Some d \<Longrightarrow> d \<noteq> 0 \<Longrightarrow> cb d x = cb' d x"
  shows "loadAndPlay f (Some cb) e s = loadAndPlay f (Some cb') e s"
  using assms unfolding loadAndPlay_def Let_def truthy_def
  by (auto split: outcome.split option.split)

lemma loadAndPlay_none:
  assumes "statusResult e = Fulfilled st"
    "\<not> isLoaded st \<or> durationMillis st = None \<or> durationMillis st = Some 0"
  shows "loadAndPlay f (Some cb) e s = loadAndPlay f None e s"
  using assms unfolding loadAndPlay_def Let_def truthy_def
  by (auto split: outcome.split option.split)

lemma play_cong:
  assumes "loadAndPlay (cacheDirectory e @ ''temp_audio.mp3'') cb e s
         = loadAndPlay (cacheDirectory e @ ''temp_audio.mp3'') cb' e s"
  shows "playElevenLabsAudio t fin cb e s = playElevenLabsAudio t fin cb' e s"
proof (cases "synthesisFails e")
  case True
  then show ?thesis by (simp add: play_fail_both)
next
  case False
  then show ?thesis using assms by (simp add: play_ok)
qed

lemma loadAndPlay_plain:
  assumes "soundRef s = None \<or> unloadResult e = Fulfilled ()" "createResult e = Fulfilled b"
    "statusResult e = Fulfilled st"
  shows "snd (loadAndPlay f None e s) = (s\<lparr>soundRef := Some b, listener := Some b\<rparr>, False)"
  using assms unfolding loadAndPlay_def Let_def
  by (auto split: option.split)

lemma speak_no_duration:
  assumes st: "statusResult e = Fulfilled st"
    and nd: "\<not> isLoaded st \<or> durationMillis st = None \<or> durationMillis st = Some 0"
  shows "snd (speakTrainingMessage e s) =
           snd (playElevenLabsAudio trainingText resolve None e
                  (s\<lparr>stage := Speaking, subtitlesStarted := False, resolveCalls := 0\<rparr>))"
  unfolding speakTrainingMessage_def Let_def
  using play_cong[OF loadAndPlay_none[OF st nd]] by simp

lemma loadAndPlay_None_frame:
  "currentSubtitle (fst (snd (loadAndPlay f None e s))) = currentSubtitle s
   \<and> timers (fst (snd (loadAndPlay f None e s))) = timers s
   \<and> resolveCalls (fst (snd (loadAndPlay f None e s))) = resolveCalls s"
  unfolding loadAndPlay_def Let_def by (simp split: outcome.split option.split)

lemma play_None_frame:
  "currentSubtitle (snd (playElevenLabsAudio t resolve None e s)) = currentSubtitle s
   \<and> timers (snd (playElevenLabsAudio t resolve None e s)) = timers s"
proof (cases "synthesisFails e")
  case True
  then show ?thesis by (simp add: play_fail_both resolve_def)
next
  case False
  then show ?thesis
    using loadAndPlay_None_frame[of "cacheDirectory e @ ''temp_audio.mp3''" e s]
    by (simp add: play_ok resolve_def)
qed

lemma positive_durations_when_nonnegative:
  assumes nn: "\<forall>st' d. statusResult e = Fulfilled st' \<and> durationMillis st' = Some d \<longrightarrow> 0 \<le> d"
  shows "playElevenLabsAudio t onFinish (Some cb) e s
          = playElevenLabsAudio t onFinish (Some (\<lambda>d x. if 0 < d then cb d x else x)) e s"
proof (rule play_cong[OF loadAndPlay_cong])
  fix st' d x
  assume "statusResult e = Fulfilled st'" "isLoaded st'" "durationMillis st' = Some d" "d \<noteq> 0"
  with nn have "0 < d" by force
  then show "cb d x = (if 0 < d then cb d x else x)" by simp
qed

text \<open>
  C9, as the code has it. When the status read after loading is not loaded, or has no
  \<open>durationMillis\<close>, or has \<open>0\<close>, \<open>playElevenLabsAudio\<close> behaves as if no
  \<open>onDurationReady\<close> had been given: the callback is not invoked. In the session the
  subtitle and the pending timers stay as they were; when the audio did load, the playback
  callback is registered on the sound, the promise is still pending, and the status update
  of the finished playback resolves it once and the session goes on to the \<open>continue\<close>
  stage. Whatever the run, the callback is only invoked with a duration other than \<open>0\<close>:
  guarding it by \<open>d \<noteq> 0\<close> changes nothing.
\<close>

theorem no_duration_no_subtitles:
  "(statusResult e = Fulfilled st
      \<and> (\<not> isLoaded st \<or> durationMillis st = None \<or> durationMillis st = Some 0) \<longrightarrow>
      playElevenLabsAudio t onFinish (Some cb) e s = playElevenLabsAudio t onFinish None e s
      \<and> currentSubtitle (snd (speakTrainingMessage e s)) = currentSubtitle s
      \<and> timers (snd (speakTrainingMessage e s)) = timers s
      \<and> (\<not> synthesisFails e \<and> (soundRef s = None \<or> unloadResult e = Fulfilled ())
           \<and> createResult e = Fulfilled b \<and> isLoaded fs \<and> didJustFinish fs \<longrightarrow>
           listener (snd (speakTrainingMessage e s)) = Some b
           \<and> resolveCalls (snd (speakTrainingMessage e s)) = 0
           \<and> resolveCalls (deliverStatus resolve b fs (snd (speakTrainingMessage e s))) = 1
           \<and> stage (afterAudio (deliverStatus resolve b fs (snd (speakTrainingMessage e s)))) = Continue
           \<and> currentSubtitle (afterAudio (deliverStatus resolve b fs (snd (speakTrainingMessage e s))))
               = currentSubtitle s))
   \<and> playElevenLabsAudio t onFinish (Some cb) e' s'
       = playElevenLabsAudio t onFinish (Some (\<lambda>d x. if d \<noteq> 0 then cb d x else x)) e' s'"
proof (intro conjI impI)
  assume h: "statusResult e = Fulfilled st
      \<and> (\<not> isLoaded st \<or> durationMillis st = None \<or> durationMillis st = Some 0)"
  then have st: "statusResult e = Fulfilled st"
    and nd: "\<not> isLoaded st \<or> durationMillis st = None \<or> durationMillis st = Some 0" by simp_all
  show "playElevenLabsAudio t onFinish (Some cb) e s = playElevenLabsAudio t onFinish None e s"
    by (rule play_cong[OF loadAndPlay_none[OF st nd]])
  note sp = speak_no_duration[OF st nd, of s]
  let ?s0 = "s\<lparr>stage := Speaking, subtitlesStarted := False, resolveCalls := 0\<rparr>"
  show "currentSubtitle (snd (speakTrainingMessage e s)) = currentSubtitle s"
    using play_None_frame[of trainingText e ?s0] by (simp add: sp)
  show "timers (snd (speakTrainingMessage e s)) = timers s"
    using play_None_frame[of trainingText e ?s0] by (simp add: sp)
  assume g: "\<not> synthesisFails e \<and> (soundRef s = None \<or> unloadResult e = Fulfilled ())
           \<and> createResult e = Fulfilled b \<and> isLoaded fs \<and> didJustFinish fs"
  have lp: "snd (loadAndPlay (cacheDirectory e @ ''temp_audio.mp3'') None e ?s0)
            = (?s0\<lparr>soundRef := Some b, listener := Some b\<rparr>, False)"
    by (rule loadAndPlay_plain[where st = st]) (use g st in simp_all)
  have res: "snd (speakTrainingMessage e s) = ?s0\<lparr>soundRef := Some b, listener := Some b\<rparr>"
    using g lp by (simp add: sp play_ok)
  show "listener (snd (speakTrainingMessage e s)) = Some b"
    by (simp add: res)
  show "resolveCalls (snd (speakTrainingMessage e s)) = 0"
    by (simp add: res)
  show "resolveCalls (deliverStatus resolve b fs (snd (speakTrainingMessage e s))) = 1"
    using g by (simp add: res deliverStatus_def onPlaybackStatusUpdate_def resolve_def)
  show "stage (afterAudio (deliverStatus resolve b fs (snd (speakTrainingMessage e s)))) = Continue"
    using g by (simp add: res deliverStatus_def onPlaybackStatusUpdate_def resolve_def afterAudio_def)
  show "currentSubtitle (afterAudio (deliverStatus resolve b fs (snd (speakTrainingMessage e s))))
               = currentSubtitle s"
    using g by (simp add: res deliverStatus_def onPlaybackStatusUpdate_def resolve_def afterAudio_def)
next
  show "playElevenLabsAudio t onFinish (Some cb) e' s'
       = playElevenLabsAudio t onFinish (Some (\<lambda>d x. if d \<noteq> 0 then cb d x else x)) e' s'"
    by (rule play_cong[OF loadAndPlay_cong]) simp
qed

lemma playing_simps:
  "statusResult (playing n st) = Fulfilled st" "createResult (playing n st) = Fulfilled n"
  "unloadResult (playing n st) = Fulfilled ()" "\<not> synthesisFails (playing n st)"
  by (simp_all add: playing_def synthesisFails_def)

lemma presenter_started_3000:
  "currentSubtitle (snd (playElevenLabsAudio ''x'' resolve (Some (onDuration [''x'']))
                          (playing 7 (loaded (Some 3000))) initialScreen)) = ''x''
   \<and> timers (snd (playElevenLabsAudio ''x'' resolve (Some (onDuration [''x'']))
                          (playing 7 (loaded (Some 3000))) initialScreen)) = [[Sleep 3000]]"
  by code_simp

theorem no_duration_no_subtitles_witness:
  "statusResult (playing 7 (loaded None)) = Fulfilled (loaded None)
   \<and> durationMillis (loaded None) = None
   \<and> \<not> synthesisFails (playing 7 (loaded None))
   \<and> soundRef initialScreen = None
   \<and> createResult (playing 7 (loaded None)) = Fulfilled 7
   \<and> isLoaded (finished None) \<and> didJustFinish (finished None)
   \<and> currentSubtitle (snd (speakTrainingMessage (playing 7 (loaded None)) initialScreen)) = []
   \<and> timers (snd (speakTrainingMessage (playing 7 (loaded None)) initialScreen)) = []
   \<and> listener (snd (speakTrainingMessage (playing 7 (loaded None)) initialScreen)) = Some 7
   \<and> resolveCalls (deliverStatus resolve 7 (finished None)
        (snd (speakTrainingMessage (playing 7 (loaded None)) initialScreen))) = 1
   \<and> stage (afterAudio (deliverStatus resolve 7 (finished None)
        (snd (speakTrainingMessage (playing 7 (loaded None)) initialScreen)))) = Continue
   \<and> currentSubtitle (snd (playElevenLabsAudio ''x'' resolve
         (Some (\<lambda>d x. if d \<noteq> 0 then onDuration [''x''] d x else x))
         (playing 7 (loaded (Some 3000))) initialScreen)) = ''x''
   \<and> timers (snd (playElevenLabsAudio ''x'' resolve
         (Some (\<lambda>d x. if d \<noteq> 0 then onDuration [''x''] d x else x))
         (playing 7 (loaded (Some 3000))) initialScreen)) = [[Sleep 3000]]"
proof -
  note T = no_duration_no_subtitles[where e = "playing 7 (loaded None)" and st = "loaded None"
             and s = initialScreen and b = 7 and fs = "finished None"
             and e' = "playing 7 (loaded (Some 3000))" and s' = initialScreen and t = "''x''"
             and onFinish = resolve and cb = "onDuration [''x'']"]
  have h1: "statusResult (playing 7 (loaded None)) = Fulfilled (loaded None)
      \<and> (\<not> isLoaded (loaded None) \<or> durationMillis (loaded None) = None
          \<or> durationMillis (loaded None) = Some 0)"
    by (simp add: playing_simps loaded_def)
  have h2: "\<not> synthesisFails (playing 7 (loaded None))
      \<and> (soundRef initialScreen = None \<or> unloadResult (playing 7 (loaded None)) = Fulfilled ())
      \<and> createResult (playing 7 (loaded None)) = Fulfilled 7
      \<and> isLoaded (finished None) \<and> didJustFinish (finished None)"
    by (simp add: playing_simps finished_def initialScreen_def)
  have a: "currentSubtitle (snd (speakTrainingMessage (playing 7 (loaded None)) initialScreen))
           = currentSubtitle initialScreen"
    and b: "timers (snd (speakTrainingMessage (playing 7 (loaded None)) initialScreen))
           = timers initialScreen"
    using T h1 by blast+
  have c: "listener (snd (speakTrainingMessage (playing 7 (loaded None)) initialScreen)) = Some 7"
    and d: "resolveCalls (deliverStatus resolve 7 (finished None)
        (snd (speakTrainingMessage (playing 7 (loaded None)) initialScreen))) = 1"
    and e: "stage (afterAudio (deliverStatus resolve 7 (finished None)
        (snd (speakTrainingMessage (playing 7 (loaded None)) initialScreen)))) = Continue"
    using T h1 h2 by blast+
  have f: "playElevenLabsAudio ''x'' resolve (Some (onDuration [''x''])) (playing 7 (loaded (Some 3000))) initialScreen
     = playElevenLabsAudio ''x'' resolve (Some (\<lambda>d x. if d \<noteq> 0 then onDuration [''x''] d x else x))
         (playing 7 (loaded (Some 3000))) initialScreen"
    using T by blast
  have g: "currentSubtitle (snd (playElevenLabsAudio ''x'' resolve
         (Some (\<lambda>d x. if d \<noteq> 0 then onDuration [''x''] d x else x))
         (playing 7 (loaded (Some 3000))) initialScreen)) = ''x''
     \<and> timers (snd (playElevenLabsAudio ''x'' resolve
         (Some (\<lambda>d x. if d \<noteq> 0 then onDuration [''x''] d x else x))
         (playing 7 (loaded (Some 3000))) initialScreen)) = [[Sleep 3000]]"
    using presenter_started_3000 unfolding f .
  have i: "currentSubtitle initialScreen = []" "timers initialScreen = []" "soundRef initialScreen = None"
    by (simp_all add: initialScreen_def)
  have l: "durationMillis (loaded None) = None" by (simp add: loaded_def)
  from a b c d e g h1 h2 i l show ?thesis by simp
qed

text \<open>
  C9 as stated fails in its last part: the guard is a test for truthiness, and a negative
  number is truthy. A status with \<open>durationMillis = -5\<close> starts the presenter with the
  duration \<open>-5\<close>, so that the one-word chunk is shown with a timer of \<open>-5\<close>.
\<close>

theorem negative_duration_counterexample:
  "isLoaded (loaded (Some (- 5)))
   \<and> durationMillis (loaded (Some (- 5))) = Some (- 5)
   \<and> subtitleOpacity (snd (playElevenLabsAudio ''x'' resolve (Some (\<lambda>d x. x\<lparr>subtitleOpacity := d\<rparr>))
                          (playing 7 (loaded (Some (- 5)))) initialScreen)) = - 5
   \<and> currentSubtitle (snd (playElevenLabsAudio ''x'' resolve (Some (onDuration [''x'']))
                          (playing 7 (loaded (Some (- 5)))) initialScreen)) = ''x''
   \<and> timers (snd (playElevenLabsAudio ''x'' resolve (Some (onDuration [''x'']))
                          (playing 7 (loaded (Some (- 5)))) initialScreen)) = [[Sleep (- 5)]]"
  by code_simp

subsection \<open>Superseding a session\<close>

















section \<open>Properties of the bridge and of the greeting\<close>

subsection \<open>Messages from the rendering surface\<close>

lemma starts_with_iff: "starts_with s m \<longleftrightarrow> (\<exists>post. s = m @ post)"
  by (induction s m rule: starts_with.induct) auto

lemma js_includes_iff: "js_includes s m \<longleftrightarrow> (\<exists>pre post. s = pre @ m @ post)"
proof (induction s)
  case Nil
  show ?case by auto
next
  case (Cons c cs)
  show ?case
  proof
    assume "js_includes (c # cs) m"
    then consider "starts_with (c # cs) m" | "js_includes cs m" by auto
    then show "\<exists>pre post. c # cs = pre @ m @ post"
    proof cases
      case 1
      then obtain post where "c # cs = [] @ m @ post" by (auto simp: starts_with_iff)
      then show ?thesis by blast
    next
      case 2
      then obtain pre post where "cs = pre @ m @ post" using Cons by blast
      then have "c # cs = (c # pre) @ m @ post" by simp
      then show ?thesis by blast
    qed
  next
    assume "\<exists>pre post. c # cs = pre @ m @ post"
    then obtain pre post where e: "c # cs = pre @ m @ post" by blast
    show "js_includes (c # cs) m"
    proof (cases pre)
      case Nil
      with e have "starts_with (c # cs) m" by (auto simp: starts_with_iff)
      then show ?thesis by simp
    next
      case (Cons p ps)
      with e have "cs = ps @ m @ post" by simp
      then have "js_includes cs m" using Cons.IH by blast
      then show ?thesis by simp
    qed
  qed
qed

lemma onMessage_error:
  "error (onMessage m a) =
     (if js_includes m ''Avatar loaded'' \<or> js_includes m ''Scene ready'' then None
      else if js_includes m ''Failed'' \<or> js_includes m ''Fatal'' then Some m
      else error a)"
  by (simp add: onMessage_def setErrorCalls_def)

lemma onMessage_frame:
  "hasPlayedGreeting (onMessage m a) = hasPlayedGreeting a
   \<and> loading (onMessage m a) = loading a
   \<and> avatarGender (onMessage m a) = avatarGender a
   \<and> greetingListener (onMessage m a) = greetingListener a"
  by (simp add: onMessage_def setErrorCalls_def)

lemma onMessage_ignored:
  "\<not> js_includes m ''Failed'' \<Longrightarrow> \<not> js_includes m ''Fatal'' \<Longrightarrow>
   \<not> js_includes m ''Avatar loaded'' \<Longrightarrow> \<not> js_includes m ''Scene ready'' \<Longrightarrow>
   onMessage m a = a"
  by (simp add: onMessage_def setErrorCalls_def)

lemma playGreeting_by_voice:
  assumes v: "(if avatarGender a = Male then maleVoiceId else femaleVoiceId) = v"
  obtains evs r where
    "filter isFetch evs = [Fetch (ttsRequest (apiKey e) v (''Hello '' @ u @ ''! Looking forward to working together!''))]"
    "filter isPostMessage evs = []" "filter (\<lambda>ev. ev = SetAudioMode) evs = []"
    "playGreeting u hc e a =
      (case audioModeResult e of
         Rejected \<Rightarrow> ([SetAudioMode] @ greetingComplete hc, a)
       | Fulfilled w \<Rightarrow>
           (case r of
              Rejected \<Rightarrow> ([SetAudioMode] @ evs @ greetingComplete hc, a)
            | Fulfilled fileUri \<Rightarrow>
                (case createResult e of
                   Rejected \<Rightarrow> ([SetAudioMode] @ evs @ greetingComplete hc, a)
                 | Fulfilled sound \<Rightarrow>
                     ([SetAudioMode] @ evs @ [Create fileUri sound, SetListener sound],
                      a\<lparr>greetingListener := Some sound\<rparr>))))"
proof -
  let ?t = "''Hello '' @ u @ ''! Looking forward to working together!''"
  obtain evs r where syn: "synthesize v ''avatar_greeting.mp3'' ?t e = (evs, r)"
    by (cases "synthesize v ''avatar_greeting.mp3'' ?t e")
  have evs: "evs = [Fetch (ttsRequest (apiKey e) v ?t)]
             \<or> evs = [Fetch (ttsRequest (apiKey e) v ?t), WriteFile (cacheDirectory e @ ''avatar_greeting.mp3'')]"
    using synthesize_fst[of v "''avatar_greeting.mp3''" ?t e] syn by simp
  have 1: "filter isFetch evs = [Fetch (ttsRequest (apiKey e) v ?t)]" using evs by auto
  have 2: "filter isPostMessage evs = []" using evs by auto
  have 3: "filter (\<lambda>ev. ev = SetAudioMode) evs = []" using evs by auto
  have 4: "playGreeting u hc e a =
      (case audioModeResult e of
         Rejected \<Rightarrow> ([SetAudioMode] @ greetingComplete hc, a)
       | Fulfilled w \<Rightarrow>
           (case r of
              Rejected \<Rightarrow> ([SetAudioMode] @ evs @ greetingComplete hc, a)
            | Fulfilled fileUri \<Rightarrow>
                (case createResult e of
                   Rejected \<Rightarrow> ([SetAudioMode] @ evs @ greetingComplete hc, a)
                 | Fulfilled sound \<Rightarrow>
                     ([SetAudioMode] @ evs @ [Create fileUri sound, SetListener sound],
                      a\<lparr>greetingListener := Some sound\<rparr>))))"
    unfolding playGreeting_def Let_def v using syn by (simp split: outcome.split)
  from that[OF 1 2 3 4] show thesis .
qed

lemma playGreeting_frame:
  "error (snd (playGreeting u hc e a)) = error a
   \<and> hasPlayedGreeting (snd (playGreeting u hc e a)) = hasPlayedGreeting a"
proof -
  obtain evs r where pg: "playGreeting u hc e a =
      (case audioModeResult e of
         Rejected \<Rightarrow> ([SetAudioMode] @ greetingComplete hc, a)
       | Fulfilled w \<Rightarrow>
           (case r of
              Rejected \<Rightarrow> ([SetAudioMode] @ evs @ greetingComplete hc, a)
            | Fulfilled fileUri \<Rightarrow>
                (case createResult e of
                   Rejected \<Rightarrow> ([SetAudioMode] @ evs @ greetingComplete hc, a)
                 | Fulfilled sound \<Rightarrow>
                     ([SetAudioMode] @ evs @ [Create fileUri sound, SetListener sound],
                      a\<lparr>greetingListener := Some sound\<rparr>))))"
    by (rule playGreeting_by_voice[OF refl])
  show ?thesis by (simp add: pg split: outcome.split)
qed

lemma playGreeting_counts:
  "filter isPostMessage (fst (playGreeting u hc e a)) = []
   \<and> filter (\<lambda>ev. ev = SetAudioMode) (fst (playGreeting u hc e a)) = [SetAudioMode]"
proof -
  obtain evs r where ev: "filter isPostMessage evs = []" "filter (\<lambda>ev. ev = SetAudioMode) evs = []"
    and pg: "playGreeting u hc e a =
      (case audioModeResult e of
         Rejected \<Rightarrow> ([SetAudioMode] @ greetingComplete hc, a)
       | Fulfilled w \<Rightarrow>
           (case r of
              Rejected \<Rightarrow> ([SetAudioMode] @ evs @ greetingComplete hc, a)
            | Fulfilled fileUri \<Rightarrow>
                (case createResult e of
                   Rejected \<Rightarrow> ([SetAudioMode] @ evs @ greetingComplete hc, a)
                 | Fulfilled sound \<Rightarrow>
                     ([SetAudioMode] @ evs @ [Create fileUri sound, SetListener sound],
                      a\<lparr>greetingListener := Some sound\<rparr>))))"
    by (rule playGreeting_by_voice[OF refl])
  show ?thesis using ev by (simp add: pg greetingComplete_def split: outcome.split)
qed

lemma acceptedEffect_error: "error (snd (acceptedEffect acc wv u hc e a)) = error a"
  using playGreeting_frame[of u hc e "a\<lparr>hasPlayedGreeting := True\<rparr>"]
  by (simp add: acceptedEffect_def Let_def)

text \<open>
  C6. \<open>includes\<close> is the test for a contiguous occurrence. A message with \<open>"Failed"\<close> or
  \<open>"Fatal"\<close> makes the handler call \<open>setError(message)\<close>, and the error state after the
  handler is the message when the message has no success marker as well. A message with
  \<open>"Avatar loaded"\<close> or \<open>"Scene ready"\<close> makes the last call \<open>setError(null)\<close>, so the
  error state after the handler is \<open>null\<close> whatever it was before and whatever else the
  message holds. After the effect has sent \<open>switchToTalking\<close>, the message
  \<open>"Avatar loaded"\<close> leaves no error.
\<close>

theorem host_classifies_by_markers:
  "(js_includes message marker \<longleftrightarrow> (\<exists>pre post. message = pre @ marker @ post))
   \<and> (js_includes message ''Failed'' \<or> js_includes message ''Fatal'' \<longrightarrow>
        Some message \<in> set (setErrorCalls message)
        \<and> (\<not> js_includes message ''Avatar loaded'' \<and> \<not> js_includes message ''Scene ready'' \<longrightarrow>
             error (onMessage message a) = Some message))
   \<and> (js_includes message ''Avatar loaded'' \<or> js_includes message ''Scene ready'' \<longrightarrow>
        last (setErrorCalls message) = None \<and> error (onMessage message a) = None)
   \<and> error (onMessage ''Avatar loaded''
              (snd (acceptedEffect accepted webViewPresent userName hasCallback e a))) = None"
  using js_includes_iff[of message marker]
  by (simp add: onMessage_error setErrorCalls_def)

lemma inc1: "js_includes ''Failed to load avatar'' ''Failed''" by code_simp
lemma inc2: "\<not> js_includes ''Failed to load avatar'' ''Avatar loaded''" by code_simp
lemma inc3: "\<not> js_includes ''Failed to load avatar'' ''Scene ready''" by code_simp
lemma inc4: "js_includes ''Scene ready'' ''Scene ready''" by code_simp

theorem host_classifies_by_markers_witness:
  "js_includes ''Failed to load avatar'' ''Failed''
   \<and> \<not> js_includes ''Failed to load avatar'' ''Avatar loaded''
   \<and> \<not> js_includes ''Failed to load avatar'' ''Scene ready''
   \<and> error (onMessage ''Failed to load avatar'' initialAvatar) = Some ''Failed to load avatar''
   \<and> js_includes ''Scene ready'' ''Scene ready''
   \<and> error (onMessage ''Scene ready'' (onMessage ''Failed to load avatar'' initialAvatar)) = None"
  using host_classifies_by_markers[where message = "''Failed to load avatar''" and a = initialAvatar]
        host_classifies_by_markers[where message = "''Scene ready''" and a = "onMessage ''Failed to load avatar'' initialAvatar"]
        inc1 inc2 inc3 inc4
  by blast


subsection \<open>Handlers never raise\<close>

text \<open>
  C5, as the code has it. The listener inside the rendering surface never lets an
  exception out: a text that \<open>JSON.parse\<close> rejects leaves the scene as it was, and so
  does a parsed value whose \<open>action\<close> is not \<open>"switchToTalking"\<close> (or has none, or is
  \<open>null\<close>). The handler on the host side does not parse: it leaves the state as it was
  when the string holds none of the four markers, and otherwise changes the error state
  and nothing else.
\<close>

theorem bridge_handlers_never_raise:
  "(\<exists>sf'. windowMessageListener parse raw sf = Inr sf')
   \<and> (parse raw = None \<longrightarrow> windowMessageListener parse raw sf = Inr sf)
   \<and> (parse raw = Some v \<and> get_action v \<noteq> Inr (Some (JString ''switchToTalking'')) \<longrightarrow>
        windowMessageListener parse raw sf = Inr sf)
   \<and> (\<not> js_includes raw ''Failed'' \<and> \<not> js_includes raw ''Fatal''
        \<and> \<not> js_includes raw ''Avatar loaded'' \<and> \<not> js_includes raw ''Scene ready'' \<longrightarrow>
        onMessage raw a = a)
   \<and> hasPlayedGreeting (onMessage raw a) = hasPlayedGreeting a
   \<and> loading (onMessage raw a) = loading a
   \<and> avatarGender (onMessage raw a) = avatarGender a
   \<and> greetingListener (onMessage raw a) = greetingListener a"
proof -
  have 1: "\<exists>sf'. windowMessageListener parse raw sf = Inr sf'"
    by (simp add: windowMessageListener_def split: sum.split)
  have 2: "parse raw = None \<longrightarrow> windowMessageListener parse raw sf = Inr sf"
    by (simp add: windowMessageListener_def listenerTry_def)
  have 3: "parse raw = Some v \<and> get_action v \<noteq> Inr (Some (JString ''switchToTalking'')) \<longrightarrow>
        windowMessageListener parse raw sf = Inr sf"
    by (auto simp: windowMessageListener_def listenerTry_def split: sum.split)
  show ?thesis
    using 1 2 3 onMessage_frame[of raw a] onMessage_ignored[of raw a] by blast
qed

lemma garbage_markers:
  "\<not> js_includes ''%%garbage'' ''Failed''" "\<not> js_includes ''%%garbage'' ''Fatal''"
  "\<not> js_includes ''%%garbage'' ''Avatar loaded''" "\<not> js_includes ''%%garbage'' ''Scene ready''"
  by code_simp+

theorem bridge_handlers_never_raise_witness:
  \<open>sampleParse ''%%garbage'' = None
   \<and> windowMessageListener sampleParse ''%%garbage'' initialSurface = Inr initialSurface
   \<and> sampleParse ''{"action":"dance"}'' = Some (JObject [(''action'', JString ''dance'')])
   \<and> get_action (JObject [(''action'', JString ''dance'')]) = Inr (Some (JString ''dance''))
   \<and> windowMessageListener sampleParse ''{"action":"dance"}'' initialSurface = Inr initialSurface
   \<and> sampleParse ''null'' = Some JNull
   \<and> windowMessageListener sampleParse ''null'' initialSurface = Inr initialSurface
   \<and> onMessage ''%%garbage'' initialAvatar = initialAvatar\<close>
proof -
  have p1: \<open>sampleParse ''%%garbage'' = None\<close>
    and p2: \<open>sampleParse ''{"action":"dance"}'' = Some (JObject [(''action'', JString ''dance'')])\<close>
    and p3: \<open>sampleParse ''null'' = Some JNull\<close>
    by (simp_all add: sampleParse_def)
  have g2: "get_action (JObject [(''action'', JString ''dance'')]) = Inr (Some (JString ''dance''))"
    and g3: "get_action JNull = Inl TypeError"
    by simp_all
  have a: \<open>windowMessageListener sampleParse ''%%garbage'' initialSurface = Inr initialSurface\<close>
    using bridge_handlers_never_raise[where parse = sampleParse and raw = "''%%garbage''" and sf = initialSurface] p1 by blast
  have b: \<open>windowMessageListener sampleParse ''{"action":"dance"}'' initialSurface = Inr initialSurface\<close>
    using bridge_handlers_never_raise[where parse = sampleParse and raw = \<open>''{"action":"dance"}''\<close> and sf = initialSurface
               and v = "JObject [(''action'', JString ''dance'')]"] p2 g2 by simp
  have c: \<open>windowMessageListener sampleParse ''null'' initialSurface = Inr initialSurface\<close>
    using bridge_handlers_never_raise[where parse = sampleParse and raw = "''null''" and sf = initialSurface and v = JNull] p3 g3
    by simp
  have d: "onMessage ''%%garbage'' initialAvatar = initialAvatar"
    using bridge_handlers_never_raise[where raw = "''%%garbage''" and a = initialAvatar] garbage_markers by blast
  from p1 p2 p3 g2 a b c d show ?thesis by blast
qed

lemma fatal_boom: "js_includes ''Fatal error: boom'' ''Fatal''"
  "\<not> js_includes ''Fatal error: boom'' ''Avatar loaded''"
  "\<not> js_includes ''Fatal error: boom'' ''Scene ready''"
  by code_simp+

text \<open>
  C5 as stated fails on the host side: \<open>"Fatal error: boom"\<close> is not JSON (no JSON text
  starts with \<open>F\<close>), and the host's handler does not drop it but sets the error state
  to it. The page sends such strings itself (\<open>'Fatal error: ' + error.message\<close>).
\<close>

theorem host_acts_on_non_json_counterexample:
  "\<not> may_start_json ''Fatal error: boom''
   \<and> error initialAvatar = None
   \<and> error (onMessage ''Fatal error: boom'' initialAvatar) = Some ''Fatal error: boom''
   \<and> onMessage ''Fatal error: boom'' initialAvatar \<noteq> initialAvatar"
proof -
  have 1: "\<not> may_start_json ''Fatal error: boom''" by (simp add: json_first_chars_def)
  have 2: "error initialAvatar = None" by (simp add: initialAvatar_def)
  have 3: "error (onMessage ''Fatal error: boom'' initialAvatar) = Some ''Fatal error: boom''"
    using fatal_boom by (simp add: onMessage_error)
  from 2 3 have 4: "onMessage ''Fatal error: boom'' initialAvatar \<noteq> initialAvatar" by auto
  from 1 2 3 4 show ?thesis by blast
qed

subsection \<open>The greeting starts once\<close>

lemma acceptedEffect_played:
  "hasPlayedGreeting a \<Longrightarrow> acceptedEffect acc wv u hc e a = ([], a)"
  by (simp add: acceptedEffect_def)

lemma acceptedEffect_counts:
  "(filter isPostMessage (fst (acceptedEffect acc wv u hc e a)) = []
      \<and> filter (\<lambda>ev. ev = SetAudioMode) (fst (acceptedEffect acc wv u hc e a)) = []
      \<and> hasPlayedGreeting (snd (acceptedEffect acc wv u hc e a)) = hasPlayedGreeting a)
   \<or> (\<not> hasPlayedGreeting a
      \<and> filter isPostMessage (fst (acceptedEffect acc wv u hc e a)) = [PostMessage switchToTalking]
      \<and> filter (\<lambda>ev. ev = SetAudioMode) (fst (acceptedEffect acc wv u hc e a)) = [SetAudioMode]
      \<and> hasPlayedGreeting (snd (acceptedEffect acc wv u hc e a)))"
  using playGreeting_counts[of u hc e "a\<lparr>hasPlayedGreeting := True\<rparr>"]
        playGreeting_frame[of u hc e "a\<lparr>hasPlayedGreeting := True\<rparr>"]
  by (simp add: acceptedEffect_def Let_def)

lemma avatar_step_counts:
  "(filter isPostMessage (fst (avatar_step i a)) = []
      \<and> filter (\<lambda>ev. ev = SetAudioMode) (fst (avatar_step i a)) = []
      \<and> hasPlayedGreeting (snd (avatar_step i a)) = hasPlayedGreeting a)
   \<or> (\<not> hasPlayedGreeting a
      \<and> filter isPostMessage (fst (avatar_step i a)) = [PostMessage switchToTalking]
      \<and> filter (\<lambda>ev. ev = SetAudioMode) (fst (avatar_step i a)) = [SetAudioMode]
      \<and> hasPlayedGreeting (snd (avatar_step i a)))"
proof (cases i)
  case (EffectRun acc wv u hc e)
  then show ?thesis using acceptedEffect_counts[of acc wv u hc e a] by simp
next
  case (WebViewMessage m)
  then show ?thesis by (simp add: onMessage_frame)
next
  case (GreetingStatus hc snd st e)
  then show ?thesis by (simp add: greetingStatusUpdate_def greetingComplete_def)
qed simp_all

lemma avatar_run_counts:
  "(hasPlayedGreeting a \<longrightarrow>
      filter isPostMessage (fst (avatar_run inputs a)) = []
      \<and> filter (\<lambda>ev. ev = SetAudioMode) (fst (avatar_run inputs a)) = [])
   \<and> length (filter isPostMessage (fst (avatar_run inputs a))) \<le> 1
   \<and> length (filter (\<lambda>ev. ev = SetAudioMode) (fst (avatar_run inputs a))) \<le> 1"
proof (induction inputs arbitrary: a)
  case Nil
  show ?case by simp
next
  case (Cons i inputs)
  show ?case
    using avatar_step_counts[of i a] Cons[of "snd (avatar_step i a)"]
    by (auto simp: Let_def)
qed


text \<open>
  C10. In every run of an Avatar3D instance (runs of the effect with any values of
  \<open>accepted\<close> and \<open>webViewRef.current\<close>, messages, load and error events, gender
  detection, playback status updates, in any order) the command \<open>switchToTalking\<close> is
  posted at most once and \<open>playGreeting\<close>, whose first call is \<open>setAudioModeAsync\<close>, is
  started at most once; once \<open>hasPlayedGreeting\<close> is set neither happens again. The first
  run of the effect with \<open>accepted\<close> and a WebView does both and sets the flag.
\<close>

theorem greeting_started_at_most_once:
  "(hasPlayedGreeting a \<longrightarrow>
      filter isPostMessage (fst (avatar_run inputs a)) = []
      \<and> filter (\<lambda>ev. ev = SetAudioMode) (fst (avatar_run inputs a)) = [])
   \<and> length (filter isPostMessage (fst (avatar_run inputs a))) \<le> 1
   \<and> length (filter (\<lambda>ev. ev = SetAudioMode) (fst (avatar_run inputs a))) \<le> 1
   \<and> (accepted \<and> webViewPresent \<and> \<not> hasPlayedGreeting a \<longrightarrow>
        filter isPostMessage (fst (acceptedEffect accepted webViewPresent userName hasCallback e a))
          = [PostMessage switchToTalking]
        \<and> filter (\<lambda>ev. ev = SetAudioMode)
             (fst (acceptedEffect accepted webViewPresent userName hasCallback e a)) = [SetAudioMode]
        \<and> hasPlayedGreeting (snd (acceptedEffect accepted webViewPresent userName hasCallback e a)))"
proof -
  have "accepted \<and> webViewPresent \<and> \<not> hasPlayedGreeting a \<longrightarrow>
        filter isPostMessage (fst (acceptedEffect accepted webViewPresent userName hasCallback e a))
          = [PostMessage switchToTalking]
        \<and> filter (\<lambda>ev. ev = SetAudioMode)
             (fst (acceptedEffect accepted webViewPresent userName hasCallback e a)) = [SetAudioMode]
        \<and> hasPlayedGreeting (snd (acceptedEffect accepted webViewPresent userName hasCallback e a))"
    using playGreeting_counts[of userName hasCallback e "a\<lparr>hasPlayedGreeting := True\<rparr>"]
          playGreeting_frame[of userName hasCallback e "a\<lparr>hasPlayedGreeting := True\<rparr>"]
    by (simp add: acceptedEffect_def Let_def)
  with avatar_run_counts[of a inputs] show ?thesis by blast
qed

theorem greeting_started_at_most_once_witness:
  "\<not> hasPlayedGreeting initialAvatar
   \<and> hasPlayedGreeting (snd (acceptedEffect True True ''Ann'' True (playing 7 (loaded (Some 3000))) initialAvatar))
   \<and> filter isPostMessage
        (fst (acceptedEffect True True ''Ann'' True (playing 7 (loaded (Some 3000))) initialAvatar))
       = [PostMessage switchToTalking]
   \<and> filter isPostMessage
        (fst (avatar_run [WebViewMessage ''Avatar loaded'',
                          EffectRun True True ''Ann'' True (playing 8 (loaded (Some 3000))),
                          EffectRun False True ''Ann'' True (playing 8 (loaded (Some 3000))),
                          EffectRun True True ''Ann'' True (playing 8 (loaded (Some 3000)))]
               (snd (acceptedEffect True True ''Ann'' True (playing 7 (loaded (Some 3000))) initialAvatar))))
       = []"
proof -
  have n: "\<not> hasPlayedGreeting initialAvatar" by (simp add: initialAvatar_def)
  have f: "filter isPostMessage
        (fst (acceptedEffect True True ''Ann'' True (playing 7 (loaded (Some 3000))) initialAvatar))
          = [PostMessage switchToTalking]
      \<and> hasPlayedGreeting (snd (acceptedEffect True True ''Ann'' True (playing 7 (loaded (Some 3000))) initialAvatar))"
    using greeting_started_at_most_once[where a = initialAvatar and accepted = True
            and webViewPresent = True and userName = "''Ann''" and hasCallback = True
            and e = "playing 7 (loaded (Some 3000))"] n
    by blast
  then have p: "hasPlayedGreeting (snd (acceptedEffect True True ''Ann'' True (playing 7 (loaded (Some 3000))) initialAvatar))"
    by blast
  show ?thesis
    using greeting_started_at_most_once[where
            a = "snd (acceptedEffect True True ''Ann'' True (playing 7 (loaded (Some 3000))) initialAvatar)"
            and inputs = "[WebViewMessage ''Avatar loaded'',
                          EffectRun True True ''Ann'' True (playing 8 (loaded (Some 3000))),
                          EffectRun False True ''Ann'' True (playing 8 (loaded (Some 3000))),
                          EffectRun True True ''Ann'' True (playing 8 (loaded (Some 3000)))]"] n f p
    by blast
qed


end
